theory Spec2Isabelle
  imports Complex_Main
begin

section \<open>Values, errors and arrays\<close>

text \<open>
  The development embeds \<^verbatim>\<open>examples/vae/multi_channels_vae.py\<close>.
  Exceptions are values of type \<open>error\<close>; a function that may raise
  returns \<open>error + 'a\<close> with \<open>Inl\<close> for the exception.
\<close>

datatype error =
    AssertionError | IndexError | KeyError | ValueError | RuntimeError
  | ZeroDivisionError | UnboundLocalError | TypeError | SystemExit

subsection \<open>Floating-point numbers\<close>

text \<open>
  A finite floating-point number is the real number it denotes. Rounding to
  a binary format of precision \<open>p\<close> is to the nearest number of the format,
  ties to the even significand; \<open>ulp p x\<close> is the distance of the numbers
  of the format around \<open>x\<close>. The range of the exponent is not bounded:
  overflow to infinity and subnormal numbers are not modelled. \<open>f32\<close> and
  \<open>f64\<close> round to float32 and to float64 (binary64, the Python float).
  NaN is the value \<open>None\<close> of arrays of \<open>real option\<close>, which is the type
  of the arrays that the program can fill with NaN.

  The code of the script rounds where it computes: the sum that enters the
  seed of the noise, the quotient, the square root, the product and the sum
  of the noise, and the conversions to float32. The arithmetic inside the
  libraries (the draws, the decomposition, the standardisation, the linear
  layer) is exact arithmetic on reals, and so is that of the statistics of
  the training loop.
\<close>

definition round_half_even :: "real \<Rightarrow> int" where
  "round_half_even y =
     (if y - real_of_int \<lfloor>y\<rfloor> < 1 / 2 then \<lfloor>y\<rfloor>
      else if 1 / 2 < y - real_of_int \<lfloor>y\<rfloor> then \<lfloor>y\<rfloor> + 1
      else if even \<lfloor>y\<rfloor> then \<lfloor>y\<rfloor> else \<lfloor>y\<rfloor> + 1)"

definition ulp :: "nat \<Rightarrow> real \<Rightarrow> real" where
  "ulp p x = 2 powr (real_of_int \<lfloor>log 2 \<bar>x\<bar>\<rfloor> - real p + 1)"

definition round_float :: "nat \<Rightarrow> real \<Rightarrow> real" where
  "round_float p x =
     (if x = 0 then 0 else ulp p x * real_of_int (round_half_even (x / ulp p x)))"

definition f32 :: "real \<Rightarrow> real" where
  "f32 x = round_float 24 x"

definition f64 :: "real \<Rightarrow> real" where
  "f64 x = round_float 53 x"

subsection \<open>Arrays\<close>

datatype dtype = Float32 | Float64

text \<open>
  A numpy array or a torch tensor: its dtype, its shape and its elements in
  row-major order. The elements of an \<open>ndarray\<close> are finite; those of a
  \<open>nan_ndarray\<close> are finite or NaN.
\<close>

datatype 'a nd = NDArray (dtype: dtype) (shape: "nat list") (data: "'a list")

type_synonym ndarray = "real nd"

type_synonym nan_ndarray = "real option nd"

text \<open>\<^verbatim>\<open>a.astype(t)\<close> rounds the elements to the format of \<open>t\<close>.\<close>

definition round_as :: "dtype \<Rightarrow> real \<Rightarrow> real" where
  "round_as t v = (case t of Float32 \<Rightarrow> f32 v | Float64 \<Rightarrow> f64 v)"

definition astype :: "dtype \<Rightarrow> ndarray \<Rightarrow> ndarray" where
  "astype t a = NDArray t (shape a) (map (round_as t) (data a))"

text \<open>\<^verbatim>\<open>torch.FloatTensor(a)\<close>: a float32 tensor with the elements of \<open>a\<close>.\<close>

definition FloatTensor :: "ndarray \<Rightarrow> ndarray" where
  "FloatTensor a = astype Float32 a"

text \<open>
  A list comprehension over calls that may raise: the first exception, in
  list order, ends it.
\<close>

fun collect :: "(error + 'a) list \<Rightarrow> error + 'a list" where
  "collect [] = Inr []"
| "collect (Inl e # rs) = Inl e"
| "collect (Inr v # rs) = (case collect rs of Inl e \<Rightarrow> Inl e | Inr vs \<Rightarrow> Inr (v # vs))"

section \<open>The numerical library\<close>

text \<open>
  numpy's global random generator and its LAPACK singular value decomposition
  are not code of the repository. They are parameters of the model: \<open>'g\<close> is
  the type of the generator's state, \<open>rng_seed\<close> the state that
  \<^verbatim>\<open>np.random.seed\<close> installs, \<open>rng_uniform\<close> and \<open>rng_gauss\<close> one draw
  from the uniform distribution on the unit interval and from the standard
  normal distribution, and \<open>linalg_svd\<close> the triple \<^verbatim>\<open>(u, s, vt)\<close> of
  \<^verbatim>\<open>np.linalg.svd(a, full_matrices=False)\<close>. The state of the global
  generator is passed explicitly: every function that draws takes the state
  and returns the new one.
\<close>

record 'g numpy =
  rng_seed :: "nat \<Rightarrow> 'g"
  rng_uniform :: "'g \<Rightarrow> real \<times> 'g"
  rng_gauss :: "'g \<Rightarrow> real \<times> 'g"
  linalg_svd :: "ndarray \<Rightarrow> ndarray \<times> ndarray \<times> ndarray"

text \<open>
  The shapes of the reduced decomposition of an \<open>m \<times> n\<close> matrix, as numpy
  documents them.
\<close>

definition svd_shapes :: "'g numpy \<Rightarrow> bool" where
  "svd_shapes L \<longleftrightarrow>
     (\<forall>a m n. shape a = [m, n] \<longrightarrow>
        (case linalg_svd L a of (u, s, vt) \<Rightarrow>
           shape u = [m, min m n] \<and> shape s = [min m n] \<and> shape vt = [min m n, n]))"

text \<open>
  \<^verbatim>\<open>np.random.seed(s)\<close> replaces the global state by one that depends on
  \<open>s\<close> only; a seed outside \<open>0 .. 2^32 - 1\<close> raises ValueError.
\<close>

definition np_random_seed :: "'g numpy \<Rightarrow> int \<Rightarrow> error + 'g" where
  "np_random_seed L s =
     (if 0 \<le> s \<and> s < 2 ^ 32 then Inr (rng_seed L (nat s)) else Inl ValueError)"

fun draws :: "('g \<Rightarrow> real \<times> 'g) \<Rightarrow> nat \<Rightarrow> 'g \<Rightarrow> real list \<times> 'g" where
  "draws f 0 g = ([], g)"
| "draws f (Suc n) g =
     (case f g of (v, g1) \<Rightarrow> (case draws f n g1 of (vs, g2) \<Rightarrow> (v # vs, g2)))"

definition np_random_uniform ::
  "'g numpy \<Rightarrow> real \<Rightarrow> real \<Rightarrow> nat list \<Rightarrow> 'g \<Rightarrow> ndarray \<times> 'g" where
  "np_random_uniform L low high shp g =
     (case draws (rng_uniform L) (prod_list shp) g of
        (us, g') \<Rightarrow> (NDArray Float64 shp (map (\<lambda>u. low + (high - low) * u) us), g'))"

definition np_random_normal :: "'g numpy \<Rightarrow> nat list \<Rightarrow> 'g \<Rightarrow> ndarray \<times> 'g" where
  "np_random_normal L shp g =
     (case draws (rng_gauss L) (prod_list shp) g of
        (vs, g') \<Rightarrow> (NDArray Float64 shp vs, g'))"

definition np_random_randn :: "'g numpy \<Rightarrow> nat list \<Rightarrow> 'g \<Rightarrow> ndarray \<times> 'g" where
  "np_random_randn L shp g = np_random_normal L shp g"

section \<open>The linear generator\<close>

text \<open>
  The attributes of the class; the field names carry the prefix \<open>gen_\<close>,
  as the dataset class below has attributes of the same names.
\<close>

record GeneratorUniform =
  gen_lat_dim :: nat
  gen_n_channels :: nat
  gen_n_feats :: nat
  gen_seed :: int
  gen_W :: "ndarray list"

text \<open>
  The loop of \<^verbatim>\<open>GeneratorUniform.__init__\<close> over \<^verbatim>\<open>range(n_channels)\<close>. The
  random initial weight of \<^verbatim>\<open>torch.nn.Linear(lat_dim, n_feats, bias=False)\<close>
  is overwritten in the next statement by \<^verbatim>\<open>torch.FloatTensor(w)\<close>, so a
  layer is its weight matrix.
\<close>

fun init_W :: "'g numpy \<Rightarrow> nat \<Rightarrow> nat \<Rightarrow> nat \<Rightarrow> 'g \<Rightarrow> ndarray list \<times> 'g" where
  "init_W L 0 nf ld g = ([], g)"
| "init_W L (Suc k) nf ld g =
     (case np_random_uniform L (- 1) 1 [nf, ld] g of
        (w_, g1) \<Rightarrow>
          (case linalg_svd L w_ of
             (u, s, vt) \<Rightarrow>
               (case init_W L k nf ld g1 of
                  (ws, g2) \<Rightarrow> (FloatTensor (if nf \<ge> ld then u else vt) # ws, g2))))"

definition GeneratorUniform_init ::
  "'g numpy \<Rightarrow> nat \<Rightarrow> nat \<Rightarrow> nat \<Rightarrow> int \<Rightarrow> 'g \<Rightarrow> error + (GeneratorUniform \<times> 'g)" where
  "GeneratorUniform_init L ld nc nf sd g =
     (case np_random_seed L sd of
        Inl e \<Rightarrow> Inl e
      | Inr g0 \<Rightarrow>
          (case init_W L nc nf ld g0 of
             (ws, g1) \<Rightarrow>
               Inr (\<lparr>gen_lat_dim = ld, gen_n_channels = nc, gen_n_feats = nf, gen_seed = sd,
                     gen_W = ws\<rparr>, g1)))"

text \<open>
  \<^verbatim>\<open>torch.nn.functional.linear(z, w)\<close> without bias: the last axis of \<open>z\<close>
  is contracted with the rows of the \<open>out \<times> in\<close> matrix \<open>w\<close>. A last axis of
  another length, or another dtype than the weight's, raises RuntimeError.
\<close>

definition rows_of :: "nat \<Rightarrow> nat \<Rightarrow> real list \<Rightarrow> real list list" where
  "rows_of n k xs = map (\<lambda>i. take k (drop (i * k) xs)) [0..<n]"

definition dot :: "real list \<Rightarrow> real list \<Rightarrow> real" where
  "dot xs ys = sum_list (map2 (*) xs ys)"

definition F_linear :: "ndarray \<Rightarrow> ndarray \<Rightarrow> error + ndarray" where
  "F_linear z w =
     (case shape w of
        [out_f, in_f] \<Rightarrow>
          if shape z = [] \<or> last (shape z) \<noteq> in_f \<or> dtype z \<noteq> dtype w
          then Inl RuntimeError
          else Inr (NDArray (dtype z) (butlast (shape z) @ [out_f])
                 (concat (map (\<lambda>r. map (dot r) (rows_of out_f in_f (data w)))
                    (rows_of (prod_list (butlast (shape z))) in_f (data z)))))
      | _ \<Rightarrow> Inl RuntimeError)"

text \<open>The loop of \<^verbatim>\<open>forward\<close> over \<^verbatim>\<open>range(self.n_channels)\<close>.\<close>

fun forward_channels :: "GeneratorUniform \<Rightarrow> ndarray \<Rightarrow> nat list \<Rightarrow> error + ndarray list" where
  "forward_channels G z [] = Inr []"
| "forward_channels G z (ch # chs) =
     (if ch \<ge> length (gen_W G) then Inl IndexError
      else (case F_linear z (gen_W G ! ch) of
              Inl e \<Rightarrow> Inl e
            | Inr x \<Rightarrow>
                (case forward_channels G z chs of
                   Inl e \<Rightarrow> Inl e
                 | Inr obs \<Rightarrow> Inr (x # obs))))"

text \<open>
  \<^verbatim>\<open>forward\<close> on a tensor: \<^verbatim>\<open>z.size(1)\<close> raises IndexError on a tensor of
  fewer than two axes, then the assertion, then the loop.
\<close>

definition forward_tensor :: "GeneratorUniform \<Rightarrow> ndarray \<Rightarrow> error + ndarray list" where
  "forward_tensor G z =
     (case shape z of
        d0 # d1 # ds \<Rightarrow>
          if d1 = gen_lat_dim G then forward_channels G z [0..<gen_n_channels G]
          else Inl AssertionError
      | _ \<Rightarrow> Inl IndexError)"

text \<open>
  The argument of \<^verbatim>\<open>forward\<close> is a list (of such arguments), a numpy array
  or a tensor; the result is a list of results or the list of the channels'
  observations.
\<close>

datatype fwd_arg = ZList "fwd_arg list" | ZArray ndarray | ZTensor ndarray

datatype fwd_out = OutList "fwd_out list" | Obs "ndarray list"

fun forward :: "GeneratorUniform \<Rightarrow> fwd_arg \<Rightarrow> error + fwd_out" where
  "forward G (ZList zs) =
     (case collect (map (forward G) zs) of Inl e \<Rightarrow> Inl e | Inr os \<Rightarrow> Inr (OutList os))"
| "forward G (ZArray a) =
     (case forward_tensor G (FloatTensor a) of Inl e \<Rightarrow> Inl e | Inr obs \<Rightarrow> Inr (Obs obs))"
| "forward G (ZTensor z) =
     (case forward_tensor G z of Inl e \<Rightarrow> Inl e | Inr obs \<Rightarrow> Inr (Obs obs))"

section \<open>Standardisation and noise\<close>

text \<open>
  \<^verbatim>\<open>sklearn.preprocessing.StandardScaler\<close> with its default arguments:
  \<^verbatim>\<open>fit\<close> accepts a two-dimensional array with at least one row and one
  column (ValueError otherwise) and keeps, for every column, its mean and
  its population standard deviation, a standard deviation of zero being
  replaced by one; \<^verbatim>\<open>transform\<close> subtracts the mean and divides by the
  scale, column by column, and keeps the dtype.
\<close>

definition mean :: "real list \<Rightarrow> real" where
  "mean xs = sum_list xs / real (length xs)"

definition variance :: "real list \<Rightarrow> real" where
  "variance xs = mean (map (\<lambda>v. (v - mean xs) ^ 2) xs)"

definition column :: "nat \<Rightarrow> nat \<Rightarrow> real list \<Rightarrow> nat \<Rightarrow> real list" where
  "column r c xs j = map (\<lambda>i. xs ! (i * c + j)) [0..<r]"

record StandardScaler =
  sc_mean :: "real list"
  sc_scale :: "real list"

definition StandardScaler_fit :: "ndarray \<Rightarrow> error + StandardScaler" where
  "StandardScaler_fit a =
     (case shape a of
        [r, c] \<Rightarrow>
          if r = 0 \<or> c = 0 then Inl ValueError
          else Inr \<lparr>sc_mean = map (\<lambda>j. mean (column r c (data a) j)) [0..<c],
                    sc_scale = map (\<lambda>j. let s = sqrt (variance (column r c (data a) j))
                                       in if s = 0 then 1 else s) [0..<c]\<rparr>
      | _ \<Rightarrow> Inl ValueError)"

definition StandardScaler_transform :: "StandardScaler \<Rightarrow> ndarray \<Rightarrow> error + ndarray" where
  "StandardScaler_transform S a =
     (case shape a of
        [r, c] \<Rightarrow>
          if r = 0 \<or> c = 0 \<or> c \<noteq> length (sc_mean S) then Inl ValueError
          else Inr (NDArray (dtype a) [r, c]
                 (concat (map (\<lambda>i. map (\<lambda>j. (data a ! (i * c + j) - sc_mean S ! j) / sc_scale S ! j)
                                      [0..<c]) [0..<r])))
      | _ \<Rightarrow> Inl ValueError)"

text \<open>
  The argument \<^verbatim>\<open>snr\<close> is a number or a list of numbers; a number is
  repeated once per channel.
\<close>

datatype snr_arg = SnrScalar real | SnrList "real list"

definition snr_as_list :: "snr_arg \<Rightarrow> nat \<Rightarrow> real list" where
  "snr_as_list snr n = (case snr of SnrList l \<Rightarrow> l | SnrScalar s \<Rightarrow> replicate n s)"

text \<open>
  Python's \<^verbatim>\<open>int\<close> of a float truncates towards zero. An SNR is a
  Python float; an integer SNR below \<open>2^53\<close>, such as the script's 10, is the
  float of the same value and behaves alike here.
\<close>

definition py_int :: "real \<Rightarrow> int" where
  "py_int v = (if 0 \<le> v then \<lfloor>v\<rfloor> else \<lceil>v\<rceil>)"

text \<open>
  The seed of the noise: \<^verbatim>\<open>snr[0]\<close>, \<^verbatim>\<open>x[0]\<close> and the two axes of
  \<^verbatim>\<open>x[0].shape\<close> raise IndexError when they are missing. The sum
  \<^verbatim>\<open>snr[0] + 1\<close> is a float sum, rounded before \<^verbatim>\<open>int\<close> truncates it.
\<close>

definition noise_seed :: "int \<Rightarrow> real list \<Rightarrow> ndarray list \<Rightarrow> error + int" where
  "noise_seed seed0 snr x =
     (case snr of
        [] \<Rightarrow> Inl IndexError
      | s0 # _ \<Rightarrow>
          (case x of
             [] \<Rightarrow> Inl IndexError
           | x0 # _ \<Rightarrow>
               (case shape x0 of
                  r # c # _ \<Rightarrow>
                    Inr (seed0 + 3 * py_int (f64 (s0 + 1)) + 5 * int (length x) + 7 * int r
                         + 11 * int c)
                | _ \<Rightarrow> Inl IndexError)))"

text \<open>
  \<^verbatim>\<open>np.sqrt(1. / snr[c_idx])\<close> for a nonzero SNR: the square root of a
  negative quotient is NaN.
\<close>

definition sigma_noise :: "real \<Rightarrow> real option" where
  "sigma_noise s = (if s < 0 then None else Some (f64 (sqrt (f64 (1 / s)))))"

text \<open>
  \<^verbatim>\<open>sigma_noise * e\<close> for a float64 array \<open>e\<close>, and \<^verbatim>\<open>arr + noise\<close> for
  arrays of one shape: element by element in float64, NaN giving NaN.
\<close>

definition scale_noise :: "real option \<Rightarrow> ndarray \<Rightarrow> nan_ndarray" where
  "scale_noise sg e =
     NDArray Float64 (shape e)
       (map (\<lambda>v. case sg of None \<Rightarrow> None | Some s \<Rightarrow> Some (f64 (s * v))) (data e))"

definition add_arrays :: "ndarray \<Rightarrow> nan_ndarray \<Rightarrow> nan_ndarray" where
  "add_arrays arr noise =
     NDArray Float64 (shape arr)
       (map2 (\<lambda>a v. case v of None \<Rightarrow> None | Some w \<Rightarrow> Some (f64 (a + w)))
          (data arr) (data noise))"

text \<open>
  The loop over \<^verbatim>\<open>enumerate(x_std)\<close>: \<^verbatim>\<open>snr[c_idx]\<close> raises IndexError
  past the end of the list and \<^verbatim>\<open>1. / snr[c_idx]\<close> raises
  ZeroDivisionError at zero; then the noise of the channel is drawn, scaled
  and added.
\<close>

fun add_noise ::
  "'g numpy \<Rightarrow> real list \<Rightarrow> ndarray list \<Rightarrow> nat \<Rightarrow> 'g
     \<Rightarrow> error + (nan_ndarray list \<times> 'g)" where
  "add_noise L snr [] c_idx g = Inr ([], g)"
| "add_noise L snr (arr # arrs) c_idx g =
     (if c_idx \<ge> length snr then Inl IndexError
      else if snr ! c_idx = 0 then Inl ZeroDivisionError
      else (case np_random_randn L (shape arr) g of
              (e, g1) \<Rightarrow>
                (case add_noise L snr arrs (Suc c_idx) g1 of
                   Inl er \<Rightarrow> Inl er
                 | Inr (rest, g2) \<Rightarrow>
                     Inr (add_arrays arr (scale_noise (sigma_noise (snr ! c_idx)) e) # rest,
                          g2))))"

definition preprocess_and_add_noise ::
  "'g numpy \<Rightarrow> ndarray list \<Rightarrow> snr_arg \<Rightarrow> int \<Rightarrow> 'g
     \<Rightarrow> error + ((ndarray list \<times> nan_ndarray list) \<times> 'g)" where
  "preprocess_and_add_noise L x snr0 seed0 g =
     (let snr = snr_as_list snr0 (length x) in
      case collect (map StandardScaler_fit x) of
        Inl e \<Rightarrow> Inl e
      | Inr scalers \<Rightarrow>
          (case collect (map (\<lambda>c_idx. StandardScaler_transform (scalers ! c_idx) (x ! c_idx))
                           [0..<length x]) of
             Inl e \<Rightarrow> Inl e
           | Inr x_std \<Rightarrow>
               (case noise_seed seed0 snr x of
                  Inl e \<Rightarrow> Inl e
                | Inr sd \<Rightarrow>
                    (case np_random_seed L sd of
                       Inl e \<Rightarrow> Inl e
                     | Inr g1 \<Rightarrow>
                         (case add_noise L snr x_std 0 g1 of
                            Inl e \<Rightarrow> Inl e
                          | Inr (x_std_noisy, g2) \<Rightarrow> Inr ((x_std, x_std_noisy), g2))))))"

section \<open>The synthetic dataset\<close>

record SyntheticDataset =
  ds_n_samples :: nat
  ds_lat_dim :: nat
  ds_n_feats :: nat
  ds_n_channels :: nat
  ds_snr :: snr_arg
  ds_train :: bool
  ds_z :: ndarray
  ds_generator :: GeneratorUniform
  ds_x :: "ndarray list"
  ds_X :: "ndarray list"
  ds_X_noisy :: "nan_ndarray list"

text \<open>
  \<^verbatim>\<open>SyntheticDataset.__init__\<close> with the default generator class, which it
  constructs with the default seed 100. The generator is called on the numpy
  array \<^verbatim>\<open>self.z\<close>, so the result is the list of the channels'
  observations.
\<close>

definition SyntheticDataset_init ::
  "'g numpy \<Rightarrow> nat \<Rightarrow> nat \<Rightarrow> nat \<Rightarrow> nat \<Rightarrow> snr_arg \<Rightarrow> bool \<Rightarrow> 'g
     \<Rightarrow> error + (SyntheticDataset \<times> 'g)" where
  "SyntheticDataset_init L n ld nf nc snr0 train g =
     (case np_random_seed L (if train then 7 else 14) of
        Inl e \<Rightarrow> Inl e
      | Inr g1 \<Rightarrow>
          (case np_random_normal L [n, ld] g1 of
             (z, g2) \<Rightarrow>
               (case GeneratorUniform_init L ld nc nf 100 g2 of
                  Inl e \<Rightarrow> Inl e
                | Inr (generator, g3) \<Rightarrow>
                    (case forward generator (ZArray z) of
                       Inl e \<Rightarrow> Inl e
                     | Inr (OutList _) \<Rightarrow> Inl TypeError
                     | Inr (Obs x) \<Rightarrow>
                         (case preprocess_and_add_noise L x snr0 0 g3 of
                            Inl e \<Rightarrow> Inl e
                          | Inr ((X, X_noisy), g4) \<Rightarrow>
                              Inr (\<lparr>ds_n_samples = n, ds_lat_dim = ld, ds_n_feats = nf,
                                    ds_n_channels = nc, ds_snr = snr0, ds_train = train,
                                    ds_z = z, ds_generator = generator, ds_x = x,
                                    ds_X = map (astype Float32) X,
                                    ds_X_noisy = X_noisy\<rparr>, g4))))))"

definition SyntheticDataset_len :: "SyntheticDataset \<Rightarrow> nat" where
  "SyntheticDataset_len d = ds_n_samples d"

section \<open>The training loop\<close>

text \<open>
  The model class, its loss, the optimiser and the data loader belong to the
  deep-learning framework and to modules of the repository outside the two
  files at hand; they are parameters. \<open>'s\<close> is the state that training
  changes (the model's parameters and mode, the optimiser, the framework's
  random generator), \<open>'b\<close> a batch and \<open>'w\<close> a \<^verbatim>\<open>state_dict\<close>.
  \<open>forward_losses\<close> is the forward pass and the criterion under
  \<^verbatim>\<open>torch.set_grad_enabled\<close>, with the entries \<^verbatim>\<open>total\<close>, \<^verbatim>\<open>kl\<close> and
  \<^verbatim>\<open>ll\<close> of the losses; \<open>backward_step\<close> is \<^verbatim>\<open>loss.backward()\<close> followed
  by \<^verbatim>\<open>optimizer.step()\<close>; \<open>batch_size\<close> is \<^verbatim>\<open>inputs[0].size(0)\<close>.
  Exceptions of the framework and console output are not modelled.
\<close>

record ('s, 'b, 'w) torch =
  to_device :: "'s \<Rightarrow> 's"
  state_dict :: "'s \<Rightarrow> 'w"
  load_state_dict :: "'w \<Rightarrow> 's \<Rightarrow> 's"
  model_train :: "'s \<Rightarrow> 's"
  model_eval :: "'s \<Rightarrow> 's"
  zero_grad :: "'s \<Rightarrow> 's"
  forward_losses :: "bool \<Rightarrow> 'b \<Rightarrow> 's \<Rightarrow> (real \<times> real \<times> real) \<times> 's"
  backward_step :: "'s \<Rightarrow> 's"
  batch_size :: "'b \<Rightarrow> nat"

text \<open>
  A data loader: the batches of one pass over it (shuffling draws from the
  framework's generator) and the length of its dataset.
\<close>

record ('s, 'b) DataLoader =
  dl_batches :: "'s \<Rightarrow> 'b list \<times> 's"
  dl_dataset_len :: nat

text \<open>The keys of the global dictionary \<^verbatim>\<open>image_datasets\<close>, in insertion order.\<close>

definition image_datasets_keys :: "string list" where
  "image_datasets_keys = [''train'', ''val'']"

text \<open>The local variables of \<^verbatim>\<open>train_model\<close>; \<open>since\<close> records whether it is bound.\<close>

record ('s, 'w) train_state =
  model :: 's
  best_model_wts :: 'w
  best_loss :: real
  since :: bool

text \<open>The body of the loop over the batches, up to the statistics.\<close>

definition batch_step ::
  "('s, 'b, 'w) torch \<Rightarrow> string \<Rightarrow> 'b \<Rightarrow> 's \<Rightarrow> (real \<times> real \<times> real) \<times> 's" where
  "batch_step T phase inputs m =
     (case forward_losses T (phase = ''train'') inputs (zero_grad T m) of
        (losses, m2) \<Rightarrow> (losses, if phase = ''train'' then backward_step T m2 else m2))"

fun run_batches ::
  "('s, 'b, 'w) torch \<Rightarrow> string \<Rightarrow> 'b list \<Rightarrow> real \<times> real \<times> real \<Rightarrow> 's
     \<Rightarrow> (real \<times> real \<times> real) \<times> 's" where
  "run_batches T phase [] running m = (running, m)"
| "run_batches T phase (inputs # rest) (running_loss, running_kl, running_ll) m =
     (case batch_step T phase inputs m of
        ((loss, kl, ll), m') \<Rightarrow>
          run_batches T phase rest
            (running_loss + loss * real (batch_size T inputs),
             running_kl + kl * real (batch_size T inputs),
             running_ll + ll * real (batch_size T inputs)) m')"

text \<open>
  One phase of one epoch up to the epoch statistics: the mode of the model,
  the pass over \<^verbatim>\<open>dataloaders[phase]\<close> (KeyError when the phase has no
  loader) and the three quotients (ZeroDivisionError when the dataset has
  length zero).
\<close>

definition epoch_statistics ::
  "('s, 'b, 'w) torch \<Rightarrow> (string \<rightharpoonup> ('s, 'b) DataLoader) \<Rightarrow> string \<Rightarrow> 's
     \<Rightarrow> error + ((real \<times> real \<times> real) \<times> 's)" where
  "epoch_statistics T dataloaders phase m =
     (case dataloaders phase of
        None \<Rightarrow> Inl KeyError
      | Some dl \<Rightarrow>
          (case dl_batches dl (if phase = ''train'' then model_train T m else model_eval T m) of
             (batches, m1) \<Rightarrow>
               (case run_batches T phase batches (0, 0, 0) m1 of
                  ((running_loss, running_kl, running_ll), m2) \<Rightarrow>
                    if dl_dataset_len dl = 0 then Inl ZeroDivisionError
                    else Inr ((running_loss / real (dl_dataset_len dl),
                               running_kl / real (dl_dataset_len dl),
                               running_ll / real (dl_dataset_len dl)), m2))))"

text \<open>
  The rest of the phase: the scheduler, when there is one and the phase is
  the training phase, and the best weights so far.
\<close>

definition scheduler_update :: "(real \<Rightarrow> 's \<Rightarrow> 's) option \<Rightarrow> string \<Rightarrow> real \<Rightarrow> 's \<Rightarrow> 's" where
  "scheduler_update scheduler phase epoch_loss m =
     (case scheduler of
        None \<Rightarrow> m
      | Some step \<Rightarrow> if phase = ''train'' then step epoch_loss m else m)"

definition save_best ::
  "('s, 'b, 'w) torch \<Rightarrow> string \<Rightarrow> real \<Rightarrow> ('s, 'w) train_state \<Rightarrow> ('s, 'w) train_state" where
  "save_best T phase epoch_loss st =
     (if phase = ''val'' \<and> epoch_loss < best_loss st
      then st\<lparr>best_loss := epoch_loss, best_model_wts := state_dict T (model st)\<rparr>
      else st)"

definition run_phase ::
  "('s, 'b, 'w) torch \<Rightarrow> (string \<rightharpoonup> ('s, 'b) DataLoader) \<Rightarrow> (real \<Rightarrow> 's \<Rightarrow> 's) option
     \<Rightarrow> string \<Rightarrow> ('s, 'w) train_state \<Rightarrow> error + ('s, 'w) train_state" where
  "run_phase T dataloaders scheduler phase st =
     (case epoch_statistics T dataloaders phase (model st) of
        Inl e \<Rightarrow> Inl e
      | Inr ((epoch_loss, epoch_kl, epoch_ll), m) \<Rightarrow>
          Inr (save_best T phase epoch_loss
                 (st\<lparr>model := scheduler_update scheduler phase epoch_loss m\<rparr>)))"

fun run_phases ::
  "('s, 'b, 'w) torch \<Rightarrow> (string \<rightharpoonup> ('s, 'b) DataLoader) \<Rightarrow> (real \<Rightarrow> 's \<Rightarrow> 's) option
     \<Rightarrow> string list \<Rightarrow> ('s, 'w) train_state \<Rightarrow> error + ('s, 'w) train_state" where
  "run_phases T dataloaders scheduler [] st = Inr st"
| "run_phases T dataloaders scheduler (phase # phases) st =
     (case run_phase T dataloaders scheduler phase st of
        Inl e \<Rightarrow> Inl e
      | Inr st' \<Rightarrow> run_phases T dataloaders scheduler phases st')"

text \<open>One epoch: \<^verbatim>\<open>since\<close> is bound, then the phases run in order.\<close>

definition run_epoch ::
  "('s, 'b, 'w) torch \<Rightarrow> (string \<rightharpoonup> ('s, 'b) DataLoader) \<Rightarrow> (real \<Rightarrow> 's \<Rightarrow> 's) option
     \<Rightarrow> ('s, 'w) train_state \<Rightarrow> error + ('s, 'w) train_state" where
  "run_epoch T dataloaders scheduler st =
     run_phases T dataloaders scheduler image_datasets_keys (st\<lparr>since := True\<rparr>)"

fun run_epochs ::
  "('s, 'b, 'w) torch \<Rightarrow> (string \<rightharpoonup> ('s, 'b) DataLoader) \<Rightarrow> (real \<Rightarrow> 's \<Rightarrow> 's) option
     \<Rightarrow> nat list \<Rightarrow> ('s, 'w) train_state \<Rightarrow> error + ('s, 'w) train_state" where
  "run_epochs T dataloaders scheduler [] st = Inr st"
| "run_epochs T dataloaders scheduler (epoch # epochs) st =
     (case run_epoch T dataloaders scheduler st of
        Inl e \<Rightarrow> Inl e
      | Inr st' \<Rightarrow> run_epochs T dataloaders scheduler epochs st')"

text \<open>The state before the first epoch.\<close>

definition initial_state :: "('s, 'b, 'w) torch \<Rightarrow> 's \<Rightarrow> ('s, 'w) train_state" where
  "initial_state T m0 =
     \<lparr>model = to_device T m0, best_model_wts = state_dict T (to_device T m0),
      best_loss = 100000000, since = False\<rparr>"

text \<open>
  \<^verbatim>\<open>train_model\<close>: after the loop, \<^verbatim>\<open>time.time() - since\<close> raises
  UnboundLocalError when no epoch has run; then the best weights are loaded.
\<close>

definition train_model ::
  "('s, 'b, 'w) torch \<Rightarrow> (string \<rightharpoonup> ('s, 'b) DataLoader) \<Rightarrow> (real \<Rightarrow> 's \<Rightarrow> 's) option
     \<Rightarrow> nat \<Rightarrow> 's \<Rightarrow> error + 's" where
  "train_model T dataloaders scheduler num_epochs m0 =
     (case run_epochs T dataloaders scheduler [0..<num_epochs] (initial_state T m0) of
        Inl e \<Rightarrow> Inl e
      | Inr st \<Rightarrow>
          if \<not> since st then Inl UnboundLocalError
          else Inr (if ''val'' \<in> set image_datasets_keys
                    then load_state_dict T (best_model_wts st) (model st)
                    else model st))"

subsection \<open>What a run observes\<close>

text \<open>
  The state after the first \<open>k\<close> epochs, the validation epoch loss that
  epoch \<open>k\<close> computes, and the \<^verbatim>\<open>state_dict\<close> of the model at the end of
  epoch \<open>k\<close>, which is the snapshot that the validation phase of that epoch
  takes when it takes one.
\<close>

definition state_after ::
  "('s, 'b, 'w) torch \<Rightarrow> (string \<rightharpoonup> ('s, 'b) DataLoader) \<Rightarrow> (real \<Rightarrow> 's \<Rightarrow> 's) option
     \<Rightarrow> 's \<Rightarrow> nat \<Rightarrow> error + ('s, 'w) train_state" where
  "state_after T dataloaders scheduler m0 k =
     run_epochs T dataloaders scheduler [0..<k] (initial_state T m0)"

definition val_loss_from ::
  "('s, 'b, 'w) torch \<Rightarrow> (string \<rightharpoonup> ('s, 'b) DataLoader) \<Rightarrow> (real \<Rightarrow> 's \<Rightarrow> 's) option
     \<Rightarrow> ('s, 'w) train_state \<Rightarrow> error + real" where
  "val_loss_from T dataloaders scheduler st =
     (case run_phase T dataloaders scheduler ''train'' (st\<lparr>since := True\<rparr>) of
        Inl e \<Rightarrow> Inl e
      | Inr st1 \<Rightarrow>
          (case epoch_statistics T dataloaders ''val'' (model st1) of
             Inl e \<Rightarrow> Inl e
           | Inr ((epoch_loss, epoch_kl, epoch_ll), m) \<Rightarrow> Inr epoch_loss))"

definition val_loss_at ::
  "('s, 'b, 'w) torch \<Rightarrow> (string \<rightharpoonup> ('s, 'b) DataLoader) \<Rightarrow> (real \<Rightarrow> 's \<Rightarrow> 's) option
     \<Rightarrow> 's \<Rightarrow> nat \<Rightarrow> error + real" where
  "val_loss_at T dataloaders scheduler m0 k =
     (case state_after T dataloaders scheduler m0 k of
        Inl e \<Rightarrow> Inl e
      | Inr st \<Rightarrow> val_loss_from T dataloaders scheduler st)"

definition snapshot_at ::
  "('s, 'b, 'w) torch \<Rightarrow> (string \<rightharpoonup> ('s, 'b) DataLoader) \<Rightarrow> (real \<Rightarrow> 's \<Rightarrow> 's) option
     \<Rightarrow> 's \<Rightarrow> nat \<Rightarrow> error + 'w" where
  "snapshot_at T dataloaders scheduler m0 k =
     (case state_after T dataloaders scheduler m0 (Suc k) of
        Inl e \<Rightarrow> Inl e
      | Inr st \<Rightarrow> Inr (state_dict T (model st)))"

text \<open>
  The losses of the batches of one pass, in order, as the loop computes them.
\<close>

fun batch_losses ::
  "('s, 'b, 'w) torch \<Rightarrow> string \<Rightarrow> 'b list \<Rightarrow> 's \<Rightarrow> (real \<times> real \<times> real) list" where
  "batch_losses T phase [] m = []"
| "batch_losses T phase (inputs # rest) m =
     (case batch_step T phase inputs m of
        (losses, m') \<Rightarrow> losses # batch_losses T phase rest m')"

section \<open>The script\<close>

text \<open>
  The statements of the script in order: the gate on the process
  environment, the two datasets, the two models, the data loaders and the
  training of each model. The constructor of the model (with its loss and
  optimiser, after \<^verbatim>\<open>torch.manual_seed(42)\<close>) and the constructor of the
  data loader are parameters, as they are not in the files at hand; the
  argument of \<open>MCVAE\<close> is the flag \<^verbatim>\<open>sparse\<close>. The plots at the end of the
  script are not modelled.
\<close>

record ('s, 'b, 'w) pynet =
  torch_ops :: "('s, 'b, 'w) torch"
  MCVAE :: "bool \<Rightarrow> 's"
  DataLoader_new :: "SyntheticDataset \<Rightarrow> nat \<Rightarrow> ('s, 'b) DataLoader"

definition script_body ::
  "('s, 'b, 'w) pynet \<Rightarrow> 'g numpy \<Rightarrow> 'g
     \<Rightarrow> error + ((string \<times> SyntheticDataset) list \<times> (string \<times> 's) list \<times> 'g)" where
  "script_body P L g =
     (case SyntheticDataset_init L 500 2 4 3 (SnrScalar 10) True g of
        Inl e \<Rightarrow> Inl e
      | Inr (ds_train0, g1) \<Rightarrow>
          (case SyntheticDataset_init L 500 2 4 3 (SnrScalar 10) False g1 of
             Inl e \<Rightarrow> Inl e
           | Inr (ds_val0, g2) \<Rightarrow>
               (let image_datasets = [(''train'', ds_train0), (''val'', ds_val0)];
                    models = [(''mcvae'', MCVAE P False), (''smcvae'', MCVAE P True)];
                    dataloaders =
                      map_of (map (\<lambda>(k, d). (k, DataLoader_new P d 500)) image_datasets)
                in case collect (map (\<lambda>(name, m).
                            train_model (torch_ops P) dataloaders None 5000 m) models) of
                     Inl e \<Rightarrow> Inl e
                   | Inr trained \<Rightarrow>
                       Inr (image_datasets, zip (map fst models) trained, g2))))"

text \<open>
  \<^verbatim>\<open>if "CI_MODE" in os.environ: sys.exit()\<close> is the first statement after
  the imports of \<^verbatim>\<open>os\<close> and \<^verbatim>\<open>sys\<close>.
\<close>

definition script ::
  "('s, 'b, 'w) pynet \<Rightarrow> 'g numpy \<Rightarrow> (string \<rightharpoonup> string) \<Rightarrow> 'g
     \<Rightarrow> error + ((string \<times> SyntheticDataset) list \<times> (string \<times> 's) list \<times> 'g)" where
  "script P L environ g =
     (case environ ''CI_MODE'' of
        Some v \<Rightarrow> Inl SystemExit
      | None \<Rightarrow> script_body P L g)"

section \<open>Derived notions and concrete instances\<close>

text \<open>
  The noise arrays \<^verbatim>\<open>sigma_noise * np.random.randn(*arr.shape)\<close> that the
  loop of \<^verbatim>\<open>preprocess_and_add_noise\<close> draws for channels of the given
  shapes, in order, with the state of the generator after the loop.
\<close>

fun noise_draws ::
  "'g numpy \<Rightarrow> real list \<Rightarrow> nat list list \<Rightarrow> nat \<Rightarrow> 'g \<Rightarrow> nan_ndarray list \<times> 'g" where
  "noise_draws L snr [] c_idx g = ([], g)"
| "noise_draws L snr (shp # shps) c_idx g =
     (case np_random_randn L shp g of
        (e, g1) \<Rightarrow>
          (case noise_draws L snr shps (Suc c_idx) g1 of
             (rest, g2) \<Rightarrow> (scale_noise (sigma_noise (snr ! c_idx)) e # rest, g2)))"

text \<open>
  A small instance of the numerical library for concrete evaluation. The
  generator's state is a counter; a uniform draw is \<open>1/2\<close>, so that every
  matrix drawn on \<open>[-1, 1)\<close> is zero, and a normal draw is the counter. The
  decomposition returns the leading columns and rows of identity matrices
  with singular values zero, which is a reduced singular value decomposition
  of a zero matrix.
\<close>

definition eye :: "nat \<Rightarrow> nat \<Rightarrow> real list" where
  "eye r c = concat (map (\<lambda>i. map (\<lambda>j. if i = j then 1 else 0) [0..<c]) [0..<r])"

definition toy_svd :: "ndarray \<Rightarrow> ndarray \<times> ndarray \<times> ndarray" where
  "toy_svd a =
     (case shape a of
        [m, n] \<Rightarrow>
          (NDArray Float64 [m, min m n] (eye m (min m n)),
           NDArray Float64 [min m n] (replicate (min m n) 0),
           NDArray Float64 [min m n, n] (eye (min m n) n))
      | _ \<Rightarrow> (a, a, a))"

definition toy_numpy :: "nat numpy" where
  "toy_numpy =
     \<lparr>rng_seed = (\<lambda>s. s), rng_uniform = (\<lambda>g. (1 / 2, Suc g)),
      rng_gauss = (\<lambda>g. (real g, Suc g)), linalg_svd = toy_svd\<rparr>"

text \<open>
  A small instance of the framework: the state is a counter of optimiser
  steps, a batch is its size, and the loss is a function of the counter.
\<close>

definition toy_torch :: "(nat \<Rightarrow> real) \<Rightarrow> (nat, nat, nat) torch" where
  "toy_torch f =
     \<lparr>to_device = (\<lambda>m. m), state_dict = (\<lambda>m. m), load_state_dict = (\<lambda>w m. w),
      model_train = (\<lambda>m. m), model_eval = (\<lambda>m. m), zero_grad = (\<lambda>m. m),
      forward_losses = (\<lambda>grad b m. ((f m, 0, 0), m)), backward_step = Suc,
      batch_size = (\<lambda>b. b)\<rparr>"

definition toy_loader :: "(nat, nat) DataLoader" where
  "toy_loader = \<lparr>dl_batches = (\<lambda>m. ([2], m)), dl_dataset_len = 2\<rparr>"

definition toy_loaders :: "string \<rightharpoonup> (nat, nat) DataLoader" where
  "toy_loaders = [''train'' \<mapsto> toy_loader, ''val'' \<mapsto> toy_loader]"

definition toy_pynet :: "(nat, nat, nat) pynet" where
  "toy_pynet =
     \<lparr>torch_ops = toy_torch (\<lambda>m. 1), MCVAE = (\<lambda>sparse. 0),
      DataLoader_new = (\<lambda>d n. toy_loader)\<rparr>"

text \<open>
  The invariant of the loop over the epochs: after \<open>n\<close> epochs the best
  loss is a lower bound of the validation losses seen, and either nothing
  has been saved yet or the saved weights are the snapshot of the first epoch
  whose validation loss is the best loss.
\<close>

definition tracked ::
  "('s, 'b, 'w) torch \<Rightarrow> (string \<rightharpoonup> ('s, 'b) DataLoader) \<Rightarrow> (real \<Rightarrow> 's \<Rightarrow> 's) option
     \<Rightarrow> 's \<Rightarrow> nat \<Rightarrow> ('s, 'w) train_state \<Rightarrow> bool" where
  "tracked T dls sch m0 n st \<longleftrightarrow>
     (\<forall>e<n. \<exists>l. val_loss_at T dls sch m0 e = Inr l \<and> best_loss st \<le> l) \<and>
     ((best_loss st = 100000000 \<and> best_model_wts st = state_dict T (to_device T m0)) \<or>
      (\<exists>e<n. val_loss_at T dls sch m0 e = Inr (best_loss st) \<and> best_loss st < 100000000 \<and>
          snapshot_at T dls sch m0 e = Inr (best_model_wts st) \<and>
          (\<forall>e'<e. \<exists>l'. val_loss_at T dls sch m0 e' = Inr l' \<and> best_loss st < l')))"

section \<open>Rounding\<close>

lemma round_half_even_error: "\<bar>real_of_int (round_half_even y) - y\<bar> \<le> 1 / 2"
proof -
  have "real_of_int \<lfloor>y\<rfloor> \<le> y" "y < real_of_int \<lfloor>y\<rfloor> + 1" by linarith+
  then show ?thesis by (auto simp: round_half_even_def)
qed

lemma round_half_even_int: "round_half_even (real_of_int k) = k"
  by (simp add: round_half_even_def)

lemma ulp_pos: "0 < ulp p x"
  by (simp add: ulp_def)

lemma ulp_le:
  assumes "x \<noteq> 0"
  shows "ulp p x \<le> \<bar>x\<bar> * 2 powr (1 - real p)"
proof -
  have "real_of_int \<lfloor>log 2 \<bar>x\<bar>\<rfloor> \<le> log 2 \<bar>x\<bar>" by simp
  then have "2 powr (real_of_int \<lfloor>log 2 \<bar>x\<bar>\<rfloor>) \<le> 2 powr (log 2 \<bar>x\<bar>)"
    by (simp only: powr_le_cancel_iff) 
  also have "\<dots> = \<bar>x\<bar>" using assms by simp
  finally have le: "2 powr (real_of_int \<lfloor>log 2 \<bar>x\<bar>\<rfloor>) \<le> \<bar>x\<bar>" .
  have "real_of_int \<lfloor>log 2 \<bar>x\<bar>\<rfloor> - real p + 1 = real_of_int \<lfloor>log 2 \<bar>x\<bar>\<rfloor> + (1 - real p)"
    by simp
  then have "ulp p x = 2 powr (real_of_int \<lfloor>log 2 \<bar>x\<bar>\<rfloor>) * 2 powr (1 - real p)"
    by (simp only: ulp_def powr_add)
  also have "\<dots> \<le> \<bar>x\<bar> * 2 powr (1 - real p)"
    using le by (simp add: mult_right_mono)
  finally show ?thesis .
qed

lemma round_float_error:
  "\<bar>round_float p x - x\<bar> \<le> \<bar>x\<bar> * 2 powr (- real p)"
proof (cases "x = 0")
  case True
  then show ?thesis by (simp add: round_float_def)
next
  case False
  let ?q = "ulp p x"
  have q: "0 < ?q" by (rule ulp_pos)
  have "round_float p x - x = ?q * (real_of_int (round_half_even (x / ?q)) - x / ?q)"
    using False q by (simp add: round_float_def algebra_simps)
  then have "\<bar>round_float p x - x\<bar> = ?q * \<bar>real_of_int (round_half_even (x / ?q)) - x / ?q\<bar>"
    using q by (simp add: abs_mult)
  also have "\<dots> \<le> ?q * (1 / 2)"
    using q round_half_even_error [of "x / ?q"] by (intro mult_left_mono) simp_all
  also have "\<dots> \<le> (\<bar>x\<bar> * 2 powr (1 - real p)) * (1 / 2)"
    using ulp_le [OF False, of p] by simp
  also have "\<dots> = \<bar>x\<bar> * 2 powr (- real p)"
  proof -
    have "1 - real p = 1 + (- real p)" by simp
    then have "(2::real) powr (1 - real p) = 2 * 2 powr (- real p)"
      by (simp only: powr_add) simp
    then show ?thesis by simp
  qed
  finally show ?thesis .
qed

lemma round_float_pow2:
  assumes "0 < p"
  shows "round_float p (2 ^ n) = 2 ^ n"
proof -
  have lg: "\<lfloor>log 2 \<bar>2 ^ n :: real\<bar>\<rfloor> = int n"
    by (simp add: log_nat_power)
  have u: "ulp p (2 ^ n) = 2 powr (real n - real p + 1)"
    by (simp add: ulp_def lg)
  obtain k where k: "p = Suc k" using assms by (cases p) auto
  have "(2::real) ^ n / ulp p (2 ^ n) = 2 powr (real n) / 2 powr (real n - real p + 1)"
    by (simp add: u powr_realpow)
  also have "\<dots> = 2 powr (real k)"
    by (simp add: powr_diff [symmetric] k)
  also have "\<dots> = real_of_int (2 ^ k)"
    by (simp add: powr_realpow)
  finally have d: "(2::real) ^ n / ulp p (2 ^ n) = real_of_int (2 ^ k)" .
  have "round_float p (2 ^ n) = ulp p (2 ^ n) * real_of_int (2 ^ k)"
    by (simp only: round_float_def d round_half_even_int) simp
  also have "\<dots> = ulp p (2 ^ n) * ((2::real) ^ n / ulp p (2 ^ n))"
    by (simp only: d)
  also have "\<dots> = 2 ^ n"
    using ulp_pos [of p "2 ^ n"] by simp
  finally show ?thesis .
qed

lemma f32_0: "f32 0 = 0" by (simp add: f32_def round_float_def)

lemma f32_1: "f32 1 = 1"
  using round_float_pow2 [of 24 0] by (simp add: f32_def)

lemma f64_2: "f64 2 = 2"
  using round_float_pow2 [of 53 1] by (simp add: f64_def)

lemma f64_0: "f64 0 = 0" by (simp add: f64_def round_float_def)

lemma py_int_f64_bound:
  assumes "0 < s" "s \<le> 1000000000"
  shows "0 \<le> py_int (f64 (s + 1))" "py_int (f64 (s + 1)) \<le> 1000000001"
proof -
  let ?x = "s + 1"
  have e: "\<bar>f64 ?x - ?x\<bar> \<le> \<bar>?x\<bar> * 2 powr (- real 53)"
    unfolding f64_def by (rule round_float_error)
  have p: "(2::real) powr (- real 53) = 1 / 2 ^ 53"
    by (simp add: powr_minus powr_realpow inverse_eq_divide)
  have x: "1 < ?x" "?x \<le> 1000000001" using assms by simp_all
  from e have "\<bar>f64 ?x - ?x\<bar> \<le> \<bar>?x\<bar> * (1 / 2 ^ 53)" by (simp only: p)
  with x have b: "\<bar>f64 ?x - ?x\<bar> \<le> ?x / 2 ^ 53" by simp
  have small: "?x / 2 ^ 53 < 1 / 2" using x by simp
  from b small x have lo: "0 \<le> f64 ?x" and hi: "f64 ?x < 1000000002" by linarith+
  from lo show "0 \<le> py_int (f64 ?x)" by (simp add: py_int_def)
  from lo hi show "py_int (f64 ?x) \<le> 1000000001" by (simp add: py_int_def floor_le_iff)
qed

text \<open>
  The rounding of the sum matters for the seed: for the SNR \<open>1 - 2^-53\<close>
  the exact sum \<open>2 - 2^-53\<close> lies halfway between two floats and rounds
  to 2, so that \<^verbatim>\<open>int(snr[0] + 1)\<close> is 2 and not 1.
\<close>

lemma ulp_unit_interval:
  assumes "1 \<le> x" "x < 2"
  shows "ulp p x = 2 powr (1 - real p)"
proof -
  have "0 \<le> log 2 x" "log 2 x < 1" using assms by simp_all
  then have "\<lfloor>log 2 \<bar>x\<bar>\<rfloor> = 0" using assms by (simp add: floor_eq_iff)
  then show ?thesis by (simp add: ulp_def)
qed

lemma f64_tie:
  assumes "s = 1 - 1 / 2 ^ 53"
  shows "py_int (f64 (s + 1)) = 2"
proof -
  define x where "x = s + 1"
  have x: "x = 2 - 1 / 2 ^ 53" by (simp add: x_def assms)
  have u: "ulp 53 x = 1 / 2 ^ 52"
  proof -
    have "ulp 53 x = 2 powr (1 - real 53)" by (rule ulp_unit_interval) (simp_all add: x)
    also have "\<dots> = 2 powr (- real 52)" by simp
    also have "\<dots> = 1 / 2 ^ 52" by (simp only: powr_minus powr_realpow) (simp add: inverse_eq_divide)
    finally show ?thesis .
  qed
  have d: "x / ulp 53 x = real_of_int (2 ^ 53 - 1) + 1 / 2" unfolding u by (simp add: x)
  have fl: "\<lfloor>real_of_int (2 ^ 53 - 1) + 1 / 2\<rfloor> = 2 ^ 53 - 1" by (simp add: floor_eq_iff)
  have r: "round_half_even (x / ulp 53 x) = 2 ^ 53"
    unfolding d round_half_even_def fl by simp
  have "x \<noteq> 0" by (simp add: x)
  then have "f64 x = ulp 53 x * real_of_int (round_half_even (x / ulp 53 x))"
    by (simp add: f64_def round_float_def)
  also have "\<dots> = 2" by (simp only: r) (simp add: u)
  finally have "f64 x = 2" .
  then show ?thesis by (simp add: x_def py_int_def)
qed

section \<open>The epoch statistics\<close>

lemma run_batches_sums:
  "fst (run_batches T phase bs (a, b, c) m) =
     (a + (\<Sum>(ls, inputs)\<leftarrow>zip (batch_losses T phase bs m) bs. fst ls * real (batch_size T inputs)),
      b + (\<Sum>(ls, inputs)\<leftarrow>zip (batch_losses T phase bs m) bs. fst (snd ls) * real (batch_size T inputs)),
      c + (\<Sum>(ls, inputs)\<leftarrow>zip (batch_losses T phase bs m) bs. snd (snd ls) * real (batch_size T inputs)))"
proof (induction bs arbitrary: a b c m)
  case Nil
  show ?case by simp
next
  case (Cons inputs rest)
  obtain loss kl ll m' where st: "batch_step T phase inputs m = ((loss, kl, ll), m')"
    by (metis prod.exhaust)
  show ?case
    using Cons.IH [of "a + loss * real (batch_size T inputs)" "b + kl * real (batch_size T inputs)"
        "c + ll * real (batch_size T inputs)" m']
    by (simp add: st add.assoc)
qed

lemma epoch_statistics_ok:
  assumes "dataloaders phase = Some dl" and "0 < dl_dataset_len dl"
    and "dl_batches dl (if phase = ''train'' then model_train T m else model_eval T m)
           = (batches, m1)"
  shows "epoch_statistics T dataloaders phase m =
           Inr (((\<Sum>(ls, inputs)\<leftarrow>zip (batch_losses T phase batches m1) batches.
                    fst ls * real (batch_size T inputs)) / real (dl_dataset_len dl),
                 (\<Sum>(ls, inputs)\<leftarrow>zip (batch_losses T phase batches m1) batches.
                    fst (snd ls) * real (batch_size T inputs)) / real (dl_dataset_len dl),
                 (\<Sum>(ls, inputs)\<leftarrow>zip (batch_losses T phase batches m1) batches.
                    snd (snd ls) * real (batch_size T inputs)) / real (dl_dataset_len dl)),
                snd (run_batches T phase batches (0, 0, 0) m1))"
proof -
  obtain r m2 where rb: "run_batches T phase batches (0, 0, 0) m1 = (r, m2)"
    by (cases "run_batches T phase batches (0, 0, 0) m1") auto
  from run_batches_sums [of T phase batches 0 0 0 m1] rb
  have r: "r = ((\<Sum>(ls, inputs)\<leftarrow>zip (batch_losses T phase batches m1) batches.
                    fst ls * real (batch_size T inputs)),
                 (\<Sum>(ls, inputs)\<leftarrow>zip (batch_losses T phase batches m1) batches.
                    fst (snd ls) * real (batch_size T inputs)),
                 (\<Sum>(ls, inputs)\<leftarrow>zip (batch_losses T phase batches m1) batches.
                    snd (snd ls) * real (batch_size T inputs)))"
    by simp
  show ?thesis
    using assms rb unfolding r by (simp add: epoch_statistics_def)
qed

text \<open>
  Claim C6. In every phase whose loader exists and has a dataset of positive
  length, the statistics are computed, and the epoch loss, the epoch KL term
  and the epoch reconstruction likelihood are each the sum, over the batches
  of the pass in order, of the batch's value times the batch's size, divided
  by the length of the loader's dataset.
\<close>

theorem epoch_statistics_weighted:
  assumes "dataloaders phase = Some dl" and "0 < dl_dataset_len dl"
    and "dl_batches dl (if phase = ''train'' then model_train T m else model_eval T m)
           = (batches, m1)"
  shows "\<exists>m'. epoch_statistics T dataloaders phase m =
           Inr (((\<Sum>(ls, inputs)\<leftarrow>zip (batch_losses T phase batches m1) batches.
                    fst ls * real (batch_size T inputs)) / real (dl_dataset_len dl),
                 (\<Sum>(ls, inputs)\<leftarrow>zip (batch_losses T phase batches m1) batches.
                    fst (snd ls) * real (batch_size T inputs)) / real (dl_dataset_len dl),
                 (\<Sum>(ls, inputs)\<leftarrow>zip (batch_losses T phase batches m1) batches.
                    snd (snd ls) * real (batch_size T inputs)) / real (dl_dataset_len dl)),
                m')"
  using epoch_statistics_ok [where dataloaders = dataloaders and phase = phase and T = T and m = m,
      OF assms]
  by blast

lemma toy_epoch_statistics:
  "epoch_statistics (toy_torch f) toy_loaders phase m =
     (if phase = ''train'' then Inr ((f m, 0, 0), Suc m)
      else if phase = ''val'' then Inr ((f m, 0, 0), m) else Inl KeyError)"
  by (simp add: epoch_statistics_def toy_loaders_def toy_loader_def toy_torch_def batch_step_def)

theorem epoch_statistics_weighted_witness:
  "toy_loaders ''val'' = Some toy_loader \<and> 0 < dl_dataset_len toy_loader \<and>
   dl_batches toy_loader (if ''val'' = ''train'' then model_train (toy_torch real) 3
                          else model_eval (toy_torch real) 3) = ([2], 3) \<and>
   (\<exists>m'. epoch_statistics (toy_torch real) toy_loaders ''val'' 3 =
           Inr (((\<Sum>(ls, inputs)\<leftarrow>zip (batch_losses (toy_torch real) ''val'' [2] 3) [2].
                    fst ls * real (batch_size (toy_torch real) inputs))
                   / real (dl_dataset_len toy_loader),
                 (\<Sum>(ls, inputs)\<leftarrow>zip (batch_losses (toy_torch real) ''val'' [2] 3) [2].
                    fst (snd ls) * real (batch_size (toy_torch real) inputs))
                   / real (dl_dataset_len toy_loader),
                 (\<Sum>(ls, inputs)\<leftarrow>zip (batch_losses (toy_torch real) ''val'' [2] 3) [2].
                    snd (snd ls) * real (batch_size (toy_torch real) inputs))
                   / real (dl_dataset_len toy_loader)),
                m'))"
proof (intro conjI)
  show a: "toy_loaders ''val'' = Some toy_loader" by (simp add: toy_loaders_def)
  show b: "0 < dl_dataset_len toy_loader" by (simp add: toy_loader_def)
  show c: "dl_batches toy_loader (if ''val'' = ''train'' then model_train (toy_torch real) 3
                          else model_eval (toy_torch real) 3) = ([2], 3)"
    by (simp add: toy_loader_def toy_torch_def)
  show "\<exists>m'. epoch_statistics (toy_torch real) toy_loaders ''val'' 3 =
           Inr (((\<Sum>(ls, inputs)\<leftarrow>zip (batch_losses (toy_torch real) ''val'' [2] 3) [2].
                    fst ls * real (batch_size (toy_torch real) inputs))
                   / real (dl_dataset_len toy_loader),
                 (\<Sum>(ls, inputs)\<leftarrow>zip (batch_losses (toy_torch real) ''val'' [2] 3) [2].
                    fst (snd ls) * real (batch_size (toy_torch real) inputs))
                   / real (dl_dataset_len toy_loader),
                 (\<Sum>(ls, inputs)\<leftarrow>zip (batch_losses (toy_torch real) ''val'' [2] 3) [2].
                    snd (snd ls) * real (batch_size (toy_torch real) inputs))
                   / real (dl_dataset_len toy_loader)),
                m')"
    by (rule epoch_statistics_weighted [where dataloaders = toy_loaders and phase = "''val''"
          and T = "toy_torch real" and m = 3, OF a b c])
qed

section \<open>The best validation loss\<close>

lemma run_phase_Inr:
  assumes "run_phase T dls sch phase st = Inr st'"
  shows "\<exists>l kl ll m. epoch_statistics T dls phase (model st) = Inr ((l, kl, ll), m) \<and>
           st' = save_best T phase l (st\<lparr>model := scheduler_update sch phase l m\<rparr>)"
proof (cases "epoch_statistics T dls phase (model st)")
  case (Inl e)
  with assms show ?thesis by (simp add: run_phase_def)
next
  case (Inr p)
  obtain l kl ll m where p: "p = ((l, kl, ll), m)" by (metis prod.exhaust)
  from assms Inr p
  have "st' = save_best T phase l (st\<lparr>model := scheduler_update sch phase l m\<rparr>)"
    by (simp add: run_phase_def)
  with Inr p show ?thesis by blast
qed

lemma run_phase_train:
  assumes "run_phase T dls sch ''train'' st = Inr st1"
  shows "best_loss st1 = best_loss st \<and> best_model_wts st1 = best_model_wts st \<and> since st1 = since st"
proof -
  from run_phase_Inr [OF assms] obtain l m where
    "st1 = save_best T ''train'' l (st\<lparr>model := scheduler_update sch ''train'' l m\<rparr>)"
    by blast
  then show ?thesis by (simp add: save_best_def)
qed

lemma run_phase_val:
  assumes "run_phase T dls sch ''val'' st1 = Inr st'"
  shows "\<exists>l kl ll m. epoch_statistics T dls ''val'' (model st1) = Inr ((l, kl, ll), m) \<and>
           model st' = m \<and> since st' = since st1 \<and>
           (if l < best_loss st1
            then best_loss st' = l \<and> best_model_wts st' = state_dict T m
            else best_loss st' = best_loss st1 \<and> best_model_wts st' = best_model_wts st1)"
proof -
  from run_phase_Inr [OF assms] obtain l kl ll m where
    es: "epoch_statistics T dls ''val'' (model st1) = Inr ((l, kl, ll), m)" and
    st': "st' = save_best T ''val'' l (st1\<lparr>model := scheduler_update sch ''val'' l m\<rparr>)"
    by blast
  have m': "scheduler_update sch ''val'' l m = m"
    by (cases sch) (simp_all add: scheduler_update_def)
  have "model st' = m \<and> since st' = since st1 \<and>
           (if l < best_loss st1
            then best_loss st' = l \<and> best_model_wts st' = state_dict T m
            else best_loss st' = best_loss st1 \<and> best_model_wts st' = best_model_wts st1)"
    unfolding st' m' by (simp add: save_best_def)
  with es show ?thesis by blast
qed

lemma run_epoch_step:
  assumes "run_epoch T dls sch st = Inr st'"
  shows "\<exists>l. val_loss_from T dls sch st = Inr l \<and> since st' \<and>
           (if l < best_loss st
            then best_loss st' = l \<and> best_model_wts st' = state_dict T (model st')
            else best_loss st' = best_loss st \<and> best_model_wts st' = best_model_wts st)"
proof -
  have ph: "run_phases T dls sch [''train'', ''val''] (st\<lparr>since := True\<rparr>) = Inr st'"
    using assms by (simp add: run_epoch_def image_datasets_keys_def)
  then obtain st1 where
    tr: "run_phase T dls sch ''train'' (st\<lparr>since := True\<rparr>) = Inr st1"
    by (cases "run_phase T dls sch ''train'' (st\<lparr>since := True\<rparr>)") simp_all
  with ph have "run_phases T dls sch [''val''] st1 = Inr st'" by simp
  then have va: "run_phase T dls sch ''val'' st1 = Inr st'"
    by (cases "run_phase T dls sch ''val'' st1") simp_all
  from run_phase_train [OF tr] have eq1: "best_loss st1 = best_loss st"
    "best_model_wts st1 = best_model_wts st" "since st1" by simp_all
  from run_phase_val [OF va] obtain l kl ll m where
    es: "epoch_statistics T dls ''val'' (model st1) = Inr ((l, kl, ll), m)" and
    m: "model st' = m" and s: "since st' = since st1" and
    upd: "if l < best_loss st1
            then best_loss st' = l \<and> best_model_wts st' = state_dict T m
            else best_loss st' = best_loss st1 \<and> best_model_wts st' = best_model_wts st1"
    by blast
  have vl: "val_loss_from T dls sch st = Inr l"
    by (simp add: val_loss_from_def tr es)
  show ?thesis
  proof (intro exI [of _ l] conjI)
    show "val_loss_from T dls sch st = Inr l" by (rule vl)
    show "since st'" using s eq1(3) by simp
    show "if l < best_loss st
            then best_loss st' = l \<and> best_model_wts st' = state_dict T (model st')
            else best_loss st' = best_loss st \<and> best_model_wts st' = best_model_wts st"
      using upd unfolding eq1 m by simp
  qed
qed

lemma run_epochs_append:
  "run_epochs T dls sch (es @ fs) st =
     (case run_epochs T dls sch es st of Inl e \<Rightarrow> Inl e | Inr st' \<Rightarrow> run_epochs T dls sch fs st')"
  by (induction es arbitrary: st) (auto split: sum.splits)

lemma state_after_Suc:
  "state_after T dls sch m0 (Suc k) =
     (case state_after T dls sch m0 k of Inl e \<Rightarrow> Inl e | Inr st \<Rightarrow> run_epoch T dls sch st)"
  by (simp add: state_after_def run_epochs_append split: sum.splits)

lemma state_after_0: "state_after T dls sch m0 0 = Inr (initial_state T m0)"
  by (simp add: state_after_def)

lemma state_after_prefix:
  assumes "state_after T dls sch m0 n = Inr st" and "k \<le> n"
  shows "\<exists>sk. state_after T dls sch m0 k = Inr sk"
  using assms
proof (induction n arbitrary: st)
  case 0
  then show ?case by simp
next
  case (Suc n)
  show ?case
  proof (cases "k = Suc n")
    case True
    with Suc.prems show ?thesis by simp
  next
    case False
    with Suc.prems have kn: "k \<le> n" by simp
    from Suc.prems(1) obtain sn where "state_after T dls sch m0 n = Inr sn"
      by (auto simp: state_after_Suc split: sum.splits)
    from Suc.IH [OF this kn] show ?thesis .
  qed
qed

lemma state_after_step:
  assumes "state_after T dls sch m0 (Suc k) = Inr sk'"
  shows "\<exists>sk l. state_after T dls sch m0 k = Inr sk \<and> val_loss_at T dls sch m0 k = Inr l \<and>
           since sk' \<and> snapshot_at T dls sch m0 k = Inr (state_dict T (model sk')) \<and>
           (if l < best_loss sk
            then best_loss sk' = l \<and> best_model_wts sk' = state_dict T (model sk')
            else best_loss sk' = best_loss sk \<and> best_model_wts sk' = best_model_wts sk)"
proof -
  from assms obtain sk where sk: "state_after T dls sch m0 k = Inr sk"
    and re: "run_epoch T dls sch sk = Inr sk'"
    by (auto simp: state_after_Suc split: sum.splits)
  from run_epoch_step [OF re] obtain l where
    "val_loss_from T dls sch sk = Inr l" "since sk'"
    "if l < best_loss sk
       then best_loss sk' = l \<and> best_model_wts sk' = state_dict T (model sk')
       else best_loss sk' = best_loss sk \<and> best_model_wts sk' = best_model_wts sk"
    by blast
  with sk assms show ?thesis
    by (simp add: val_loss_at_def snapshot_at_def)
qed

lemma best_loss_mono_step:
  assumes "state_after T dls sch m0 (Suc k) = Inr sk'"
  shows "\<exists>sk. state_after T dls sch m0 k = Inr sk \<and> best_loss sk' \<le> best_loss sk"
  using state_after_step [OF assms] by (auto split: if_splits)

lemma best_loss_mono:
  assumes "state_after T dls sch m0 k = Inr sk" and "j \<le> k"
  shows "\<exists>sj. state_after T dls sch m0 j = Inr sj \<and> best_loss sk \<le> best_loss sj"
  using assms
proof (induction k arbitrary: sk)
  case 0
  then show ?case by simp
next
  case (Suc k)
  show ?case
  proof (cases "j = Suc k")
    case True
    with Suc.prems show ?thesis by simp
  next
    case False
    with Suc.prems have jk: "j \<le> k" by simp
    from best_loss_mono_step [OF Suc.prems(1)] obtain s where
      s: "state_after T dls sch m0 k = Inr s" and le: "best_loss sk \<le> best_loss s" by blast
    from Suc.IH [OF s jk] obtain sj where
      "state_after T dls sch m0 j = Inr sj" "best_loss s \<le> best_loss sj" by blast
    with le show ?thesis by auto
  qed
qed

lemma tracked_after:
  assumes "state_after T dls sch m0 n = Inr st"
  shows "tracked T dls sch m0 n st"
  using assms
proof (induction n arbitrary: st)
  case 0
  then show ?case by (auto simp: tracked_def state_after_0 initial_state_def)
next
  case (Suc n)
  from state_after_step [OF Suc.prems] obtain sn l where
    sn: "state_after T dls sch m0 n = Inr sn" and
    l: "val_loss_at T dls sch m0 n = Inr l" and
    snap: "snapshot_at T dls sch m0 n = Inr (state_dict T (model st))" and
    upd: "if l < best_loss sn
            then best_loss st = l \<and> best_model_wts st = state_dict T (model st)
            else best_loss st = best_loss sn \<and> best_model_wts st = best_model_wts sn"
    by blast
  from Suc.IH [OF sn] have ih: "tracked T dls sch m0 n sn" .
  then have lower: "\<forall>e<n. \<exists>l'. val_loss_at T dls sch m0 e = Inr l' \<and> best_loss sn \<le> l'"
    by (simp add: tracked_def)
  have le1e8: "best_loss sn \<le> 100000000"
    using ih by (auto simp: tracked_def)
  show ?case
  proof (cases "l < best_loss sn")
    case True
    with upd have b: "best_loss st = l" and w: "best_model_wts st = state_dict T (model st)"
      by simp_all
    have p1: "\<forall>e<Suc n. \<exists>l'. val_loss_at T dls sch m0 e = Inr l' \<and> best_loss st \<le> l'"
    proof (intro allI impI)
      fix e assume "e < Suc n"
      show "\<exists>l'. val_loss_at T dls sch m0 e = Inr l' \<and> best_loss st \<le> l'"
      proof (cases "e = n")
        case True
        then show ?thesis using l b by simp
      next
        case False
        with \<open>e < Suc n\<close> have "e < n" by simp
        with lower obtain l' where "val_loss_at T dls sch m0 e = Inr l'" "best_loss sn \<le> l'"
          by blast
        with True b show ?thesis by auto
      qed
    qed
    have p2: "\<forall>e'<n. \<exists>l'. val_loss_at T dls sch m0 e' = Inr l' \<and> best_loss st < l'"
    proof (intro allI impI)
      fix e' assume "e' < n"
      with lower obtain l' where "val_loss_at T dls sch m0 e' = Inr l'" "best_loss sn \<le> l'"
        by blast
      with True b show "\<exists>l'. val_loss_at T dls sch m0 e' = Inr l' \<and> best_loss st < l'" by auto
    qed
    have lt: "best_loss st < 100000000" using True b le1e8 by simp
    have vl: "val_loss_at T dls sch m0 n = Inr (best_loss st)" using l b by simp
    have sn': "snapshot_at T dls sch m0 n = Inr (best_model_wts st)" using snap w by simp
    have "\<exists>e<Suc n. val_loss_at T dls sch m0 e = Inr (best_loss st) \<and> best_loss st < 100000000 \<and>
          snapshot_at T dls sch m0 e = Inr (best_model_wts st) \<and>
          (\<forall>e'<e. \<exists>l'. val_loss_at T dls sch m0 e' = Inr l' \<and> best_loss st < l')"
    proof (intro exI [of _ n] conjI)
      show "n < Suc n" by simp
    qed (rule vl lt sn' p2)+
    with p1 show ?thesis
      unfolding tracked_def by (rule conjI [OF _ disjI2])
  next
    case False
    with upd have b: "best_loss st = best_loss sn" and w: "best_model_wts st = best_model_wts sn"
      by simp_all
    have p1: "\<forall>e<Suc n. \<exists>l'. val_loss_at T dls sch m0 e = Inr l' \<and> best_loss st \<le> l'"
    proof (intro allI impI)
      fix e assume "e < Suc n"
      show "\<exists>l'. val_loss_at T dls sch m0 e = Inr l' \<and> best_loss st \<le> l'"
      proof (cases "e = n")
        case True
        then show ?thesis using l b False by simp
      next
        case False
        with \<open>e < Suc n\<close> have "e < n" by simp
        with lower b show ?thesis by simp
      qed
    qed
    from ih have
      "(best_loss sn = 100000000 \<and> best_model_wts sn = state_dict T (to_device T m0)) \<or>
       (\<exists>e<n. val_loss_at T dls sch m0 e = Inr (best_loss sn) \<and> best_loss sn < 100000000 \<and>
          snapshot_at T dls sch m0 e = Inr (best_model_wts sn) \<and>
          (\<forall>e'<e. \<exists>l'. val_loss_at T dls sch m0 e' = Inr l' \<and> best_loss sn < l'))"
      by (simp add: tracked_def)
    then show ?thesis
    proof
      assume "best_loss sn = 100000000 \<and> best_model_wts sn = state_dict T (to_device T m0)"
      then have "best_loss st = 100000000 \<and> best_model_wts st = state_dict T (to_device T m0)"
        by (simp add: b w)
      with p1 show ?thesis
        unfolding tracked_def by (rule conjI [OF _ disjI1])
    next
      assume "\<exists>e<n. val_loss_at T dls sch m0 e = Inr (best_loss sn) \<and> best_loss sn < 100000000 \<and>
          snapshot_at T dls sch m0 e = Inr (best_model_wts sn) \<and>
          (\<forall>e'<e. \<exists>l'. val_loss_at T dls sch m0 e' = Inr l' \<and> best_loss sn < l')"
      then obtain e where e: "e < n" "val_loss_at T dls sch m0 e = Inr (best_loss sn)"
        "best_loss sn < 100000000" "snapshot_at T dls sch m0 e = Inr (best_model_wts sn)"
        "\<forall>e'<e. \<exists>l'. val_loss_at T dls sch m0 e' = Inr l' \<and> best_loss sn < l'"
        by blast
      have "\<exists>e<Suc n. val_loss_at T dls sch m0 e = Inr (best_loss st) \<and> best_loss st < 100000000 \<and>
          snapshot_at T dls sch m0 e = Inr (best_model_wts st) \<and>
          (\<forall>e'<e. \<exists>l'. val_loss_at T dls sch m0 e' = Inr l' \<and> best_loss st < l')"
        unfolding b w
      proof (intro exI [of _ e] conjI)
        show "e < Suc n" using e(1) by simp
      qed (rule e)+
      with p1 show ?thesis
        unfolding tracked_def by (rule conjI [OF _ disjI2])
    qed
  qed
qed

lemma best_loss_monotone:
  assumes "state_after T dls sch m0 n = Inr st"
  shows "\<forall>j k. j \<le> k \<and> k \<le> n \<longrightarrow>
           (\<exists>sj sk. state_after T dls sch m0 j = Inr sj \<and> state_after T dls sch m0 k = Inr sk \<and>
              best_loss sk \<le> best_loss sj)"
proof (intro allI impI)
  fix j k assume jk: "j \<le> k \<and> k \<le> n"
  from state_after_prefix [OF assms, of k] jk obtain sk where
    sk: "state_after T dls sch m0 k = Inr sk" by blast
  from best_loss_mono [OF sk, of j] jk obtain sj where
    "state_after T dls sch m0 j = Inr sj" "best_loss sk \<le> best_loss sj" by blast
  with sk show "\<exists>sj sk. state_after T dls sch m0 j = Inr sj \<and>
      state_after T dls sch m0 k = Inr sk \<and> best_loss sk \<le> best_loss sj"
    by blast
qed

lemma best_loss_changes:
  assumes "state_after T dls sch m0 n = Inr st"
  shows "\<forall>k<n. \<exists>sk sk' l. state_after T dls sch m0 k = Inr sk \<and>
           state_after T dls sch m0 (Suc k) = Inr sk' \<and> val_loss_at T dls sch m0 k = Inr l \<and>
           best_loss sk' = (if l < best_loss sk then l else best_loss sk)"
proof (intro allI impI)
  fix k assume "k < n"
  then have "Suc k \<le> n" by simp
  from state_after_prefix [OF assms this] obtain sk' where
    sk': "state_after T dls sch m0 (Suc k) = Inr sk'" by blast
  from state_after_step [OF sk'] obtain sk l where
    "state_after T dls sch m0 k = Inr sk" "val_loss_at T dls sch m0 k = Inr l"
    "if l < best_loss sk
       then best_loss sk' = l \<and> best_model_wts sk' = state_dict T (model sk')
       else best_loss sk' = best_loss sk \<and> best_model_wts sk' = best_model_wts sk"
    by blast
  then have "state_after T dls sch m0 k = Inr sk \<and>
           state_after T dls sch m0 (Suc k) = Inr sk' \<and> val_loss_at T dls sch m0 k = Inr l \<and>
           best_loss sk' = (if l < best_loss sk then l else best_loss sk)"
    using sk' by (simp split: if_splits)
  then show "\<exists>sk sk' l. state_after T dls sch m0 k = Inr sk \<and>
           state_after T dls sch m0 (Suc k) = Inr sk' \<and> val_loss_at T dls sch m0 k = Inr l \<and>
           best_loss sk' = (if l < best_loss sk then l else best_loss sk)"
    by blast
qed

lemma best_weights_some:
  assumes "state_after T dls sch m0 n = Inr st"
    and "\<exists>e<n. \<exists>l. val_loss_at T dls sch m0 e = Inr l \<and> l < 100000000"
  shows "\<exists>e<n. val_loss_at T dls sch m0 e = Inr (best_loss st) \<and>
           snapshot_at T dls sch m0 e = Inr (best_model_wts st) \<and>
           (\<forall>e'<n. \<exists>l'. val_loss_at T dls sch m0 e' = Inr l' \<and> best_loss st \<le> l') \<and>
           (\<forall>e'<e. \<exists>l'. val_loss_at T dls sch m0 e' = Inr l' \<and> best_loss st < l')"
proof -
  from tracked_after [OF assms(1)] have
    lower: "\<forall>e<n. \<exists>l. val_loss_at T dls sch m0 e = Inr l \<and> best_loss st \<le> l" and
    alt: "(best_loss st = 100000000 \<and> best_model_wts st = state_dict T (to_device T m0)) \<or>
      (\<exists>e<n. val_loss_at T dls sch m0 e = Inr (best_loss st) \<and> best_loss st < 100000000 \<and>
          snapshot_at T dls sch m0 e = Inr (best_model_wts st) \<and>
          (\<forall>e'<e. \<exists>l'. val_loss_at T dls sch m0 e' = Inr l' \<and> best_loss st < l'))"
    by (simp_all add: tracked_def)
  from assms(2) obtain e l where e: "e < n" "val_loss_at T dls sch m0 e = Inr l" "l < 100000000"
    by blast
  from lower e(1) obtain l' where "val_loss_at T dls sch m0 e = Inr l'" "best_loss st \<le> l'"
    by blast
  with e have "best_loss st < 100000000" by simp
  with alt obtain e0 where e0: "e0 < n" "val_loss_at T dls sch m0 e0 = Inr (best_loss st)"
    "snapshot_at T dls sch m0 e0 = Inr (best_model_wts st)"
    "\<forall>e'<e0. \<exists>l'. val_loss_at T dls sch m0 e' = Inr l' \<and> best_loss st < l'"
    by auto
  show ?thesis
  proof (intro exI [of _ e0] conjI)
    show "e0 < n" by (rule e0)
  qed (rule e0 lower)+
qed

lemma best_weights_none:
  assumes "state_after T dls sch m0 n = Inr st"
    and "\<forall>e<n. \<forall>l. val_loss_at T dls sch m0 e = Inr l \<longrightarrow> 100000000 \<le> l"
  shows "best_loss st = 100000000 \<and> best_model_wts st = state_dict T (to_device T m0)"
proof -
  from tracked_after [OF assms(1)] have
    alt: "(best_loss st = 100000000 \<and> best_model_wts st = state_dict T (to_device T m0)) \<or>
      (\<exists>e<n. val_loss_at T dls sch m0 e = Inr (best_loss st) \<and> best_loss st < 100000000 \<and>
          snapshot_at T dls sch m0 e = Inr (best_model_wts st) \<and>
          (\<forall>e'<e. \<exists>l'. val_loss_at T dls sch m0 e' = Inr l' \<and> best_loss st < l'))"
    by (simp add: tracked_def)
  then show ?thesis
  proof
    assume "\<exists>e<n. val_loss_at T dls sch m0 e = Inr (best_loss st) \<and> best_loss st < 100000000 \<and>
          snapshot_at T dls sch m0 e = Inr (best_model_wts st) \<and>
          (\<forall>e'<e. \<exists>l'. val_loss_at T dls sch m0 e' = Inr l' \<and> best_loss st < l')"
    then obtain e where "e < n" "val_loss_at T dls sch m0 e = Inr (best_loss st)"
      "best_loss st < 100000000" by blast
    with assms(2) have False by fastforce
    then show ?thesis ..
  qed
qed

lemma train_model_loads_best:
  assumes "state_after T dls sch m0 n = Inr st" and "0 < n"
  shows "train_model T dls sch n m0 = Inr (load_state_dict T (best_model_wts st) (model st))"
proof -
  from assms(2) obtain k where n: "n = Suc k" by (cases n) auto
  with assms(1) have "state_after T dls sch m0 (Suc k) = Inr st" by simp
  from state_after_step [OF this] have "since st" by blast
  with assms(1) show ?thesis
    by (simp add: train_model_def state_after_def image_datasets_keys_def)
qed

lemma run_epoch_ok:
  assumes "dls ''train'' = Some dtr" "0 < dl_dataset_len dtr"
    and "dls ''val'' = Some dva" "0 < dl_dataset_len dva"
  shows "\<exists>st'. run_epoch T dls sch st = Inr st'"
proof -
  obtain b1 m1 where i1: "dl_batches dtr (if ''train'' = ''train''
      then model_train T (model st) else model_eval T (model st)) = (b1, m1)"
    by (metis prod.exhaust)
  from epoch_statistics_ok [where dataloaders = dls and phase = "''train''" and T = T
      and m = "model st", OF assms(1,2) i1] obtain r1 where
    e1: "epoch_statistics T dls ''train'' (model st) = Inr r1" by blast
  obtain l1 k1 ll1 n1 where r1: "r1 = ((l1, k1, ll1), n1)" by (metis prod.exhaust)
  define st1 where "st1 = save_best T ''train'' l1
      (st\<lparr>since := True, model := scheduler_update sch ''train'' l1 n1\<rparr>)"
  have p1: "run_phase T dls sch ''train'' (st\<lparr>since := True\<rparr>) = Inr st1"
    by (simp add: run_phase_def e1 r1 st1_def)
  obtain b2 m2 where i2: "dl_batches dva (if ''val'' = ''train''
      then model_train T (model st1) else model_eval T (model st1)) = (b2, m2)"
    by (metis prod.exhaust)
  from epoch_statistics_ok [where dataloaders = dls and phase = "''val''" and T = T
      and m = "model st1", OF assms(3,4) i2] obtain r2 where
    e2: "epoch_statistics T dls ''val'' (model st1) = Inr r2" by blast
  obtain l2 k2 ll2 n2 where r2: "r2 = ((l2, k2, ll2), n2)" by (metis prod.exhaust)
  have "\<exists>st'. run_phase T dls sch ''val'' st1 = Inr st'"
    by (simp add: run_phase_def e2 r2)
  with p1 show ?thesis
    by (auto simp: run_epoch_def image_datasets_keys_def)
qed

lemma state_after_ok:
  assumes "dls ''train'' = Some dtr" "0 < dl_dataset_len dtr"
    and "dls ''val'' = Some dva" "0 < dl_dataset_len dva"
  shows "\<exists>st. state_after T dls sch m0 n = Inr st"
proof (induction n)
  case 0
  show ?case by (simp add: state_after_0)
next
  case (Suc n)
  then obtain st where st: "state_after T dls sch m0 n = Inr st" by blast
  from run_epoch_ok [OF assms, of T sch st] obtain st' where
    "run_epoch T dls sch st = Inr st'" by blast
  with st show ?case by (simp add: state_after_Suc)
qed

text \<open>
  Claim C1, as amended. When both loaders exist and their datasets are not
  empty, a run of \<open>n \<ge> 1\<close> epochs returns; the best loss never increases
  from one epoch to a later one, and an epoch changes it only when its
  validation loss is strictly smaller than the best loss so far, to that
  loss. If some validation loss is below the initial value \<open>1e8\<close>, the
  best loss is the least validation loss and the best weights are the
  snapshot of the first epoch that attains it; if none is, the best weights
  are those the model had before the first epoch. The model returned has the
  best weights loaded.
\<close>

theorem train_model_tracks_best:
  assumes "dls ''train'' = Some dtr" "0 < dl_dataset_len dtr"
    and "dls ''val'' = Some dva" "0 < dl_dataset_len dva"
    and "0 < n"
  shows "\<exists>st. state_after T dls sch m0 n = Inr st \<and>
         (\<forall>j k. j \<le> k \<and> k \<le> n \<longrightarrow>
           (\<exists>sj sk. state_after T dls sch m0 j = Inr sj \<and> state_after T dls sch m0 k = Inr sk \<and>
              best_loss sk \<le> best_loss sj)) \<and>
         (\<forall>k<n. \<exists>sk sk' l. state_after T dls sch m0 k = Inr sk \<and>
           state_after T dls sch m0 (Suc k) = Inr sk' \<and> val_loss_at T dls sch m0 k = Inr l \<and>
           best_loss sk' = (if l < best_loss sk then l else best_loss sk)) \<and>
         ((\<exists>e<n. \<exists>l. val_loss_at T dls sch m0 e = Inr l \<and> l < 100000000) \<longrightarrow>
          (\<exists>e<n. val_loss_at T dls sch m0 e = Inr (best_loss st) \<and>
             snapshot_at T dls sch m0 e = Inr (best_model_wts st) \<and>
             (\<forall>e'<n. \<exists>l'. val_loss_at T dls sch m0 e' = Inr l' \<and> best_loss st \<le> l') \<and>
             (\<forall>e'<e. \<exists>l'. val_loss_at T dls sch m0 e' = Inr l' \<and> best_loss st < l'))) \<and>
         ((\<forall>e<n. \<forall>l. val_loss_at T dls sch m0 e = Inr l \<longrightarrow> 100000000 \<le> l) \<longrightarrow>
          best_loss st = 100000000 \<and> best_model_wts st = state_dict T (to_device T m0)) \<and>
         train_model T dls sch n m0 =
           Inr (load_state_dict T (best_model_wts st) (model st))"
proof -
  from state_after_ok [OF assms(1-4), of T sch m0 n] obtain st where
    st: "state_after T dls sch m0 n = Inr st" by blast
  have "state_after T dls sch m0 n = Inr st \<and>
         (\<forall>j k. j \<le> k \<and> k \<le> n \<longrightarrow>
           (\<exists>sj sk. state_after T dls sch m0 j = Inr sj \<and> state_after T dls sch m0 k = Inr sk \<and>
              best_loss sk \<le> best_loss sj)) \<and>
         (\<forall>k<n. \<exists>sk sk' l. state_after T dls sch m0 k = Inr sk \<and>
           state_after T dls sch m0 (Suc k) = Inr sk' \<and> val_loss_at T dls sch m0 k = Inr l \<and>
           best_loss sk' = (if l < best_loss sk then l else best_loss sk)) \<and>
         ((\<exists>e<n. \<exists>l. val_loss_at T dls sch m0 e = Inr l \<and> l < 100000000) \<longrightarrow>
          (\<exists>e<n. val_loss_at T dls sch m0 e = Inr (best_loss st) \<and>
             snapshot_at T dls sch m0 e = Inr (best_model_wts st) \<and>
             (\<forall>e'<n. \<exists>l'. val_loss_at T dls sch m0 e' = Inr l' \<and> best_loss st \<le> l') \<and>
             (\<forall>e'<e. \<exists>l'. val_loss_at T dls sch m0 e' = Inr l' \<and> best_loss st < l'))) \<and>
         ((\<forall>e<n. \<forall>l. val_loss_at T dls sch m0 e = Inr l \<longrightarrow> 100000000 \<le> l) \<longrightarrow>
          best_loss st = 100000000 \<and> best_model_wts st = state_dict T (to_device T m0)) \<and>
         train_model T dls sch n m0 =
           Inr (load_state_dict T (best_model_wts st) (model st))"
  proof (intro conjI impI)
    show "state_after T dls sch m0 n = Inr st" by (rule st)
    show "\<forall>j k. j \<le> k \<and> k \<le> n \<longrightarrow>
           (\<exists>sj sk. state_after T dls sch m0 j = Inr sj \<and> state_after T dls sch m0 k = Inr sk \<and>
              best_loss sk \<le> best_loss sj)"
      by (rule best_loss_monotone [OF st])
    show "\<forall>k<n. \<exists>sk sk' l. state_after T dls sch m0 k = Inr sk \<and>
           state_after T dls sch m0 (Suc k) = Inr sk' \<and> val_loss_at T dls sch m0 k = Inr l \<and>
           best_loss sk' = (if l < best_loss sk then l else best_loss sk)"
      by (rule best_loss_changes [OF st])
    show "\<exists>e<n. val_loss_at T dls sch m0 e = Inr (best_loss st) \<and>
             snapshot_at T dls sch m0 e = Inr (best_model_wts st) \<and>
             (\<forall>e'<n. \<exists>l'. val_loss_at T dls sch m0 e' = Inr l' \<and> best_loss st \<le> l') \<and>
             (\<forall>e'<e. \<exists>l'. val_loss_at T dls sch m0 e' = Inr l' \<and> best_loss st < l')"
      if "\<exists>e<n. \<exists>l. val_loss_at T dls sch m0 e = Inr l \<and> l < 100000000"
      by (rule best_weights_some [OF st that])
    show "best_loss st = 100000000"
      if "\<forall>e<n. \<forall>l. val_loss_at T dls sch m0 e = Inr l \<longrightarrow> 100000000 \<le> l"
      using best_weights_none [OF st that] by simp
    show "best_model_wts st = state_dict T (to_device T m0)"
      if "\<forall>e<n. \<forall>l. val_loss_at T dls sch m0 e = Inr l \<longrightarrow> 100000000 \<le> l"
      using best_weights_none [OF st that] by simp
    show "train_model T dls sch n m0 =
           Inr (load_state_dict T (best_model_wts st) (model st))"
      by (rule train_model_loads_best [OF st assms(5)])
  qed
  then show ?thesis by (rule exI)
qed

lemma toy_run_epoch:
  "run_epoch (toy_torch f) toy_loaders None st =
     Inr (save_best (toy_torch f) ''val'' (f (Suc (model st))) (st\<lparr>since := True, model := Suc (model st)\<rparr>))"
  by (simp add: run_epoch_def image_datasets_keys_def run_phase_def toy_epoch_statistics
      scheduler_update_def save_best_def)

text \<open>
  Claim C1 as stated fails when no validation loss is below \<open>1e8\<close>: in a
  run of one epoch whose validation loss is \<open>2e8\<close>, the training phase
  moves the weights from 0 to 1, the minimum observed validation loss is that
  of epoch 0, whose snapshot is 1, and the model returned has the weights 0
  it started with.
\<close>

theorem train_model_keeps_initial_weights:
  "val_loss_at (toy_torch (\<lambda>m. 200000000)) toy_loaders None 0 0 = Inr 200000000 \<and>
   snapshot_at (toy_torch (\<lambda>m. 200000000)) toy_loaders None 0 0 = Inr (Suc 0) \<and>
   train_model (toy_torch (\<lambda>m. 200000000)) toy_loaders None 1 0 = Inr 0 \<and>
   state_dict (toy_torch (\<lambda>m. 200000000)) 0 = 0"
  by (simp add: val_loss_at_def snapshot_at_def train_model_def state_after_def val_loss_from_def
      toy_run_epoch run_phase_def toy_epoch_statistics save_best_def initial_state_def
      scheduler_update_def image_datasets_keys_def)
   (simp add: toy_torch_def)

theorem train_model_tracks_best_witness:
  "toy_loaders ''train'' = Some toy_loader \<and> 0 < dl_dataset_len toy_loader \<and>
   toy_loaders ''val'' = Some toy_loader \<and> (0::nat) < 2 \<and>
   (\<exists>st. state_after (toy_torch real) toy_loaders None 0 2 = Inr st \<and>
      train_model (toy_torch real) toy_loaders None 2 0 =
        Inr (load_state_dict (toy_torch real) (best_model_wts st) (model st)))"
proof (intro conjI)
  show a: "toy_loaders ''train'' = Some toy_loader" by (simp add: toy_loaders_def)
  show b: "0 < dl_dataset_len toy_loader" by (simp add: toy_loader_def)
  show c: "toy_loaders ''val'' = Some toy_loader" by (simp add: toy_loaders_def)
  show d: "(0::nat) < 2" by simp
  from train_model_tracks_best [where dls = toy_loaders and T = "toy_torch real"
      and sch = None and ?m0.0 = 0 and n = 2, OF a b c b d]
  show "\<exists>st. state_after (toy_torch real) toy_loaders None 0 2 = Inr st \<and>
      train_model (toy_torch real) toy_loaders None 2 0 =
        Inr (load_state_dict (toy_torch real) (best_model_wts st) (model st))"
    by (elim exE conjE) (rule exI, rule conjI)
qed

section \<open>Arrays, standardisation and noise\<close>

lemma collect_map_Inr:
  "collect (map f xs) = Inr ys \<Longrightarrow>
     length ys = length xs \<and> (\<forall>i<length xs. f (xs ! i) = Inr (ys ! i))"
proof (induction xs arbitrary: ys)
  case Nil
  then show ?case by simp
next
  case (Cons x xs)
  from Cons.prems obtain v where v: "f x = Inr v"
    by (cases "f x") simp_all
  with Cons.prems obtain vs where vs: "collect (map f xs) = Inr vs" and ys: "ys = v # vs"
    by (cases "collect (map f xs)") auto
  from Cons.IH [OF vs] have ih: "length vs = length xs" "\<forall>i<length xs. f (xs ! i) = Inr (vs ! i)"
    by simp_all
  show ?case
  proof (intro conjI allI impI)
    show "length ys = length (x # xs)" using ih ys by simp
    fix i assume "i < length (x # xs)"
    then show "f ((x # xs) ! i) = Inr (ys ! i)"
      using ih v ys by (cases i) simp_all
  qed
qed

lemma collect_map_ok:
  "(\<forall>x\<in>set xs. \<exists>y. f x = Inr y) \<Longrightarrow> \<exists>ys. collect (map f xs) = Inr ys"
proof (induction xs)
  case Nil
  then show ?case by simp
next
  case (Cons x xs)
  then obtain y ys where "f x = Inr y" "collect (map f xs) = Inr ys" by auto
  then show ?case by simp
qed

lemma draws_length: "length (fst (draws f n g)) = n"
proof (induction n arbitrary: g)
  case 0
  show ?case by simp
next
  case (Suc n)
  obtain v g1 where v: "f g = (v, g1)" by (metis prod.exhaust)
  obtain vs g2 where vs: "draws f n g1 = (vs, g2)" by (metis prod.exhaust)
  from Suc.IH [of g1] vs have "length vs = n" by simp
  with v vs show ?case by simp
qed

lemma np_random_normal_array:
  "fst (np_random_normal L shp g) = NDArray Float64 shp (fst (draws (rng_gauss L) (prod_list shp) g))"
  by (simp add: np_random_normal_def split: prod.splits)

lemma np_random_uniform_shape:
  "shape (fst (np_random_uniform L lo hi shp g)) = shp"
  by (simp add: np_random_uniform_def split: prod.splits)

lemma np_random_seed_Inr:
  "np_random_seed L sd = Inr g \<longleftrightarrow> 0 \<le> sd \<and> sd < 2 ^ 32 \<and> g = rng_seed L (nat sd)"
  by (auto simp: np_random_seed_def)

lemma length_concat_rows:
  "length (concat (map (\<lambda>i. map (f i) [0..<c]) [0..<r])) = r * c"
  by (induction r) simp_all

lemma StandardScaler_fit_Inr:
  assumes "StandardScaler_fit a = Inr S"
  shows "\<exists>r c. shape a = [r, c] \<and> 0 < r \<and> 0 < c \<and> length (sc_mean S) = c"
proof -
  from assms obtain r c where rc: "shape a = [r, c]"
    by (auto simp: StandardScaler_fit_def split: list.splits)
  with assms have "0 < r \<and> 0 < c \<and> length (sc_mean S) = c"
    by (auto simp: StandardScaler_fit_def split: if_splits)
  with rc show ?thesis by blast
qed

lemma StandardScaler_fit_ok:
  "shape a = [r, c] \<Longrightarrow> 0 < r \<Longrightarrow> 0 < c \<Longrightarrow> \<exists>S. StandardScaler_fit a = Inr S"
  by (simp add: StandardScaler_fit_def)

lemma StandardScaler_transform_Inr:
  assumes "StandardScaler_transform S a = Inr b"
  shows "shape b = shape a \<and> dtype b = dtype a \<and> length (data b) = prod_list (shape a)"
proof -
  from assms obtain r c where rc: "shape a = [r, c]"
    by (auto simp: StandardScaler_transform_def split: list.splits)
  with assms have
    "b = NDArray (dtype a) [r, c]
           (concat (map (\<lambda>i. map (\<lambda>j. (data a ! (i * c + j) - sc_mean S ! j) / sc_scale S ! j)
                                      [0..<c]) [0..<r]))"
    by (auto simp: StandardScaler_transform_def split: if_splits)
  with rc show ?thesis by (simp add: length_concat_rows)
qed

lemma StandardScaler_transform_ok:
  assumes "StandardScaler_fit a = Inr S"
  shows "\<exists>b. StandardScaler_transform S a = Inr b"
proof -
  from StandardScaler_fit_Inr [OF assms] obtain r c where
    "shape a = [r, c]" "0 < r" "0 < c" "length (sc_mean S) = c" by blast
  then show ?thesis by (simp add: StandardScaler_transform_def)
qed

lemma add_noise_draws:
  "add_noise L snr arrs c g = Inr (res, h) \<Longrightarrow>
     \<exists>noise. noise_draws L snr (map shape arrs) c g = (noise, h) \<and>
       res = map2 add_arrays arrs noise"
proof (induction arrs arbitrary: c g res h)
  case Nil
  then show ?case by simp
next
  case (Cons arr arrs)
  from Cons.prems have c: "c < length snr" "snr ! c \<noteq> 0"
    by (auto split: if_splits)
  obtain e g1 where e: "np_random_randn L (shape arr) g = (e, g1)"
    by (cases "np_random_randn L (shape arr) g") auto
  with Cons.prems c obtain rest where
    rec: "add_noise L snr arrs (Suc c) g1 = Inr (rest, h)" and
    res: "res = add_arrays arr (scale_noise (sigma_noise (snr ! c)) e) # rest"
    by (cases "add_noise L snr arrs (Suc c) g1") auto
  from Cons.IH [OF rec] obtain noise where
    nd: "noise_draws L snr (map shape arrs) (Suc c) g1 = (noise, h)" and
    rest: "rest = map2 add_arrays arrs noise" by blast
  have "noise_draws L snr (map shape (arr # arrs)) c g =
          (scale_noise (sigma_noise (snr ! c)) e # noise, h)"
    by (simp add: e nd)
  moreover have "res = map2 add_arrays (arr # arrs) (scale_noise (sigma_noise (snr ! c)) e # noise)"
    by (simp add: res rest)
  ultimately show ?case by blast
qed

lemma add_noise_ok:
  "(\<forall>i<length arrs. c + i < length snr \<and> snr ! (c + i) \<noteq> 0) \<Longrightarrow>
     \<exists>res h. add_noise L snr arrs c g = Inr (res, h)"
proof (induction arrs arbitrary: c g)
  case Nil
  then show ?case by simp
next
  case (Cons arr arrs)
  from Cons.prems have c: "c < length snr" "snr ! c \<noteq> 0" by force+
  obtain e g1 where e: "np_random_randn L (shape arr) g = (e, g1)"
    by (cases "np_random_randn L (shape arr) g") auto
  have "\<forall>i<length arrs. Suc c + i < length snr \<and> snr ! (Suc c + i) \<noteq> 0"
  proof (intro allI impI)
    fix i assume "i < length arrs"
    then have "Suc i < length (arr # arrs)" by simp
    with Cons.prems have "c + Suc i < length snr \<and> snr ! (c + Suc i) \<noteq> 0" by blast
    then show "Suc c + i < length snr \<and> snr ! (Suc c + i) \<noteq> 0" by simp
  qed
  from Cons.IH [OF this] obtain rest g2 where
    "add_noise L snr arrs (Suc c) g1 = Inr (rest, g2)" by blast
  with c e show ?case by simp
qed

lemma preprocess_Inr:
  assumes "preprocess_and_add_noise L x snr0 seed0 g = Inr ((xs, xn), h)"
  shows "\<exists>scalers sd.
           collect (map StandardScaler_fit x) = Inr scalers \<and>
           collect (map (\<lambda>c_idx. StandardScaler_transform (scalers ! c_idx) (x ! c_idx))
                      [0..<length x]) = Inr xs \<and>
           noise_seed seed0 (snr_as_list snr0 (length x)) x = Inr sd \<and>
           0 \<le> sd \<and> sd < 2 ^ 32 \<and>
           add_noise L (snr_as_list snr0 (length x)) xs 0 (rng_seed L (nat sd)) = Inr (xn, h)"
proof -
  let ?snr = "snr_as_list snr0 (length x)"
  from assms obtain scalers where sc: "collect (map StandardScaler_fit x) = Inr scalers"
    by (cases "collect (map StandardScaler_fit x)") (simp_all add: preprocess_and_add_noise_def)
  let ?tr = "collect (map (\<lambda>c_idx. StandardScaler_transform (scalers ! c_idx) (x ! c_idx))
                      [0..<length x])"
  from assms sc obtain x_std where tr: "?tr = Inr x_std"
    by (cases ?tr) (simp_all add: preprocess_and_add_noise_def)
  from assms sc tr obtain sd where sd: "noise_seed seed0 ?snr x = Inr sd"
    by (cases "noise_seed seed0 ?snr x") (simp_all add: preprocess_and_add_noise_def)
  from assms sc tr sd obtain g1 where g1: "np_random_seed L sd = Inr g1"
    by (cases "np_random_seed L sd") (simp_all add: preprocess_and_add_noise_def)
  from assms sc tr sd g1 obtain r where r: "add_noise L ?snr x_std 0 g1 = Inr r"
    by (cases "add_noise L ?snr x_std 0 g1") (simp_all add: preprocess_and_add_noise_def)
  from assms sc tr sd g1 r have eq: "x_std = xs" "r = (xn, h)"
    by (auto simp: preprocess_and_add_noise_def split: prod.splits)
  from g1 have "0 \<le> sd" "sd < 2 ^ 32" "g1 = rng_seed L (nat sd)"
    by (simp_all add: np_random_seed_Inr)
  with sc tr sd r eq show ?thesis by blast
qed

lemma preprocess_std:
  assumes "preprocess_and_add_noise L x snr0 seed0 g = Inr ((xs, xn), h)"
  shows "length xs = length x \<and>
         (\<forall>i<length x. shape (xs ! i) = shape (x ! i) \<and> dtype (xs ! i) = dtype (x ! i) \<and>
            length (data (xs ! i)) = prod_list (shape (x ! i)) \<and>
            (\<exists>r c. shape (x ! i) = [r, c] \<and> 0 < r \<and> 0 < c))"
proof -
  from preprocess_Inr [OF assms] obtain scalers where
    sc: "collect (map StandardScaler_fit x) = Inr scalers" and
    tr: "collect (map (\<lambda>c_idx. StandardScaler_transform (scalers ! c_idx) (x ! c_idx))
                      [0..<length x]) = Inr xs"
    by blast
  from collect_map_Inr [OF tr] have len: "length xs = length x" and
    each: "\<forall>i<length x. StandardScaler_transform (scalers ! i) (x ! i) = Inr (xs ! i)"
    by simp_all
  from collect_map_Inr [OF sc] have
    fits: "\<forall>i<length x. StandardScaler_fit (x ! i) = Inr (scalers ! i)"
    by simp
  show ?thesis
  proof (intro conjI allI impI)
    show "length xs = length x" by (rule len)
  next
    fix i assume i: "i < length x"
    with each have t: "StandardScaler_transform (scalers ! i) (x ! i) = Inr (xs ! i)" by simp
    from StandardScaler_transform_Inr [OF t]
    show "shape (xs ! i) = shape (x ! i)" "dtype (xs ! i) = dtype (x ! i)"
      "length (data (xs ! i)) = prod_list (shape (x ! i))" by simp_all
    from fits i have "StandardScaler_fit (x ! i) = Inr (scalers ! i)" by simp
    from StandardScaler_fit_Inr [OF this]
    show "\<exists>r c. shape (x ! i) = [r, c] \<and> 0 < r \<and> 0 < c" by blast
  qed
qed

lemma preprocess_noise:
  assumes "preprocess_and_add_noise L x snr0 seed0 g = Inr ((xs, xn), h)"
  shows "\<exists>sd noise. noise_seed seed0 (snr_as_list snr0 (length x)) x = Inr sd \<and>
           0 \<le> sd \<and> sd < 2 ^ 32 \<and>
           noise_draws L (snr_as_list snr0 (length x)) (map shape x) 0 (rng_seed L (nat sd))
             = (noise, h) \<and>
           xn = map2 add_arrays xs noise"
proof -
  from preprocess_Inr [OF assms] obtain sd where
    sd: "noise_seed seed0 (snr_as_list snr0 (length x)) x = Inr sd" "0 \<le> sd" "sd < 2 ^ 32" and
    an: "add_noise L (snr_as_list snr0 (length x)) xs 0 (rng_seed L (nat sd)) = Inr (xn, h)"
    by blast
  from preprocess_std [OF assms] have len: "length xs = length x" and
    each: "\<forall>i<length x. shape (xs ! i) = shape (x ! i)"
    by simp_all
  have shapes: "map shape xs = map shape x"
    by (rule nth_equalityI) (simp_all add: len each)
  from add_noise_draws [OF an] obtain noise where
    "noise_draws L (snr_as_list snr0 (length x)) (map shape xs) 0 (rng_seed L (nat sd))
       = (noise, h)" "xn = map2 add_arrays xs noise" by blast
  with shapes sd show ?thesis by auto
qed

lemma noise_seed_Inr:
  assumes "noise_seed seed0 snr x = Inr sd"
  shows "\<exists>s0 ss x0 xr r c ds. snr = s0 # ss \<and> x = x0 # xr \<and> shape x0 = r # c # ds \<and>
           sd = seed0 + 3 * py_int (f64 (s0 + 1)) + 5 * int (length x) + 7 * int r + 11 * int c"
  using assms by (auto simp: noise_seed_def split: list.splits)

lemma noise_seed_shapes:
  assumes "map shape x = map shape y"
  shows "noise_seed seed0 snr x = noise_seed seed0 snr y"
proof -
  from assms have "length x = length y" by (rule map_eq_imp_length_eq)
  with assms show ?thesis
    by (cases x; cases y) (auto simp: noise_seed_def split: list.splits)
qed

text \<open>
  Claim C5. The generator that draws the noise is seeded with
  \<^verbatim>\<open>seed + 3 * int(snr[0] + 1) + 5 * len(x) + 7 * x[0].shape[0] + 11 * x[0].shape[1]\<close>,
  where \<^verbatim>\<open>snr[0] + 1\<close> is the float sum, rounded to binary64 before
  \<^verbatim>\<open>int\<close> truncates it: the seed is a function of the \<^verbatim>\<open>seed\<close> argument,
  of the first SNR, of the number of channels and of the shape of the first
  channel. The noise arrays \<^verbatim>\<open>sigma_noise * np.random.randn(*arr.shape)\<close>
  are the draws that this seed, the SNR and the shapes of the channels
  determine. Hence two calls with the same \<^verbatim>\<open>seed\<close> argument, the same SNR
  and inputs of equal shapes that return have the same seed and add the same
  list of noise arrays (NaN arrays for a negative SNR included) to their
  standardised channels, and leave the generator in the same state, whatever
  the data and whatever the state of the generator before each call.
\<close>

theorem noise_seed_from_snr_and_shapes:
  assumes "map shape x = map shape y"
    and "preprocess_and_add_noise L x snr0 seed0 g1 = Inr ((xs, xn), h1)"
    and "preprocess_and_add_noise L y snr0 seed0 g2 = Inr ((ys, yn), h2)"
  shows "\<exists>s0 ss x0 xr r c noise.
           snr_as_list snr0 (length x) = s0 # ss \<and> x = x0 # xr \<and> shape x0 = [r, c] \<and>
           noise_seed seed0 (snr_as_list snr0 (length x)) x =
             Inr (seed0 + 3 * py_int (f64 (s0 + 1)) + 5 * int (length x) + 7 * int r
                  + 11 * int c) \<and>
           noise_seed seed0 (snr_as_list snr0 (length y)) y =
             Inr (seed0 + 3 * py_int (f64 (s0 + 1)) + 5 * int (length x) + 7 * int r
                  + 11 * int c) \<and>
           noise_draws L (snr_as_list snr0 (length x)) (map shape x) 0
             (rng_seed L (nat (seed0 + 3 * py_int (f64 (s0 + 1)) + 5 * int (length x)
                               + 7 * int r + 11 * int c))) = (noise, h1) \<and>
           xn = map2 add_arrays xs noise \<and> yn = map2 add_arrays ys noise \<and> h1 = h2"
proof -
  from assms(1) have len: "length x = length y" by (rule map_eq_imp_length_eq)
  from preprocess_noise [OF assms(2)] obtain sd noise where
    sd: "noise_seed seed0 (snr_as_list snr0 (length x)) x = Inr sd" and
    nx: "noise_draws L (snr_as_list snr0 (length x)) (map shape x) 0 (rng_seed L (nat sd))
           = (noise, h1)" and
    xn: "xn = map2 add_arrays xs noise"
    by blast
  from preprocess_noise [OF assms(3)] obtain sd' noise' where
    sd': "noise_seed seed0 (snr_as_list snr0 (length y)) y = Inr sd'" and
    ny: "noise_draws L (snr_as_list snr0 (length y)) (map shape y) 0 (rng_seed L (nat sd'))
           = (noise', h2)" and
    yn: "yn = map2 add_arrays ys noise'"
    by blast
  from sd sd' noise_seed_shapes [OF assms(1), of seed0 "snr_as_list snr0 (length x)"] len
  have same_seed: "sd' = sd" by simp
  with nx ny len assms(1) have same: "noise' = noise" "h2 = h1" by simp_all
  from noise_seed_Inr [OF sd] obtain s0 ss x0 xr r c ds where
    parts: "snr_as_list snr0 (length x) = s0 # ss" "x = x0 # xr" "shape x0 = r # c # ds"
      "sd = seed0 + 3 * py_int (f64 (s0 + 1)) + 5 * int (length x) + 7 * int r + 11 * int c"
    by blast
  from preprocess_std [OF assms(2)] parts(2) have "\<exists>r c. shape (x ! 0) = [r, c]"
    by auto
  with parts(2,3) have two: "shape x0 = [r, c]" by simp
  have sy: "noise_seed seed0 (snr_as_list snr0 (length y)) y = Inr sd"
    using sd' same_seed by simp
  show ?thesis
    using parts(1,2) two sd sy nx xn yn same unfolding parts(4) by blast
qed

lemma preprocess_ok:
  assumes "s \<noteq> 0"
    and "\<forall>a\<in>set x. \<exists>r c. shape a = [r, c] \<and> 0 < r \<and> 0 < c"
    and "noise_seed seed0 (replicate (length x) s) x = Inr sd" "0 \<le> sd" "sd < 2 ^ 32"
  shows "\<exists>xs xn h. preprocess_and_add_noise L x (SnrScalar s) seed0 g = Inr ((xs, xn), h)"
proof -
  have "\<forall>a\<in>set x. \<exists>S. StandardScaler_fit a = Inr S"
    using assms(2) StandardScaler_fit_ok by blast
  from collect_map_ok [OF this] obtain scalers where
    sc: "collect (map StandardScaler_fit x) = Inr scalers" by blast
  from collect_map_Inr [OF sc] have
    fits: "\<forall>i<length x. StandardScaler_fit (x ! i) = Inr (scalers ! i)" by simp
  have "\<forall>i\<in>set [0..<length x]. \<exists>b. StandardScaler_transform (scalers ! i) (x ! i) = Inr b"
    using fits StandardScaler_transform_ok by simp
  from collect_map_ok [OF this] obtain xs where
    tr: "collect (map (\<lambda>c_idx. StandardScaler_transform (scalers ! c_idx) (x ! c_idx))
                      [0..<length x]) = Inr xs" by blast
  from collect_map_Inr [OF tr] have len: "length xs = length x" by simp
  have "\<forall>i<length xs. 0 + i < length (replicate (length x) s) \<and>
          replicate (length x) s ! (0 + i) \<noteq> 0"
    using len assms(1) by simp
  from add_noise_ok [where L = L and g = "rng_seed L (nat sd)", OF this] obtain xn h where
    an: "add_noise L (replicate (length x) s) xs 0 (rng_seed L (nat sd)) = Inr (xn, h)"
    by blast
  have "np_random_seed L sd = Inr (rng_seed L (nat sd))"
    using assms(4,5) by (simp add: np_random_seed_def)
  with sc tr assms(3) an
  have "preprocess_and_add_noise L x (SnrScalar s) seed0 g = Inr ((xs, xn), h)"
    by (simp add: preprocess_and_add_noise_def snr_as_list_def)
  then show ?thesis by blast
qed

lemma toy_preprocess_ok:
  assumes "0 < s" "s \<le> 1000000000"
  shows "\<exists>xs xn h. preprocess_and_add_noise toy_numpy [NDArray Float32 [2, 2] vs] (SnrScalar s) 0 g
      = Inr ((xs, xn), h)"
proof -
  note b = py_int_f64_bound [OF assms]
  show ?thesis
    by (rule preprocess_ok [where sd = "3 * py_int (f64 (s + 1)) + 5 + 14 + 22"])
       (use assms(1) b in \<open>simp_all add: noise_seed_def\<close>)
qed

text \<open>
  An instance of the theorem at the SNR \<open>1 - 2^-53\<close>, where the seed is
  \<open>3 * 2 + 5 * 1 + 7 * 2 + 11 * 2 = 47\<close>, for two inputs of shape
  \<open>(2, 2)\<close> with different data and different states of the generator.
\<close>

theorem noise_seed_from_snr_and_shapes_witness:
  "map shape [NDArray Float32 [2, 2] [1, 2, 3, 4 :: real]]
     = map shape [NDArray Float32 [2, 2] [5, 7, 6, 8 :: real]] \<and>
   (\<exists>xs xn h1 ys yn h2.
      preprocess_and_add_noise toy_numpy [NDArray Float32 [2, 2] [1, 2, 3, 4]]
        (SnrScalar (1 - 1 / 2 ^ 53)) 0 0 = Inr ((xs, xn), h1) \<and>
      preprocess_and_add_noise toy_numpy [NDArray Float32 [2, 2] [5, 7, 6, 8]]
        (SnrScalar (1 - 1 / 2 ^ 53)) 0 3 = Inr ((ys, yn), h2) \<and>
      noise_seed 0 (snr_as_list (SnrScalar (1 - 1 / 2 ^ 53)) 1)
        [NDArray Float32 [2, 2] [1, 2, 3, 4]] = Inr 47 \<and>
      noise_seed 0 (snr_as_list (SnrScalar (1 - 1 / 2 ^ 53)) 1)
        [NDArray Float32 [2, 2] [5, 7, 6, 8]] = Inr 47 \<and>
      (\<exists>noise. noise_draws toy_numpy (snr_as_list (SnrScalar (1 - 1 / 2 ^ 53)) 1) [[2, 2]] 0
                  (rng_seed toy_numpy 47) = (noise, h1) \<and>
               xn = map2 add_arrays xs noise \<and> yn = map2 add_arrays ys noise \<and> h1 = h2))"
proof -
  define s :: real where "s = 1 - 1 / 2 ^ 53"
  define A :: ndarray where "A = NDArray Float32 [2, 2] [1, 2, 3, 4]"
  define B :: ndarray where "B = NDArray Float32 [2, 2] [5, 7, 6, 8]"
  have s: "0 < s" "s \<le> 1000000000" by (simp_all add: s_def)
  have t: "py_int (f64 (s + 1)) = 2" by (rule f64_tie) (rule s_def)
  have sh: "map shape [A] = map shape [B]" by (simp add: A_def B_def)
  from toy_preprocess_ok [OF s, of "[1, 2, 3, 4]" 0] obtain xs xn h1 where
    p: "preprocess_and_add_noise toy_numpy [A] (SnrScalar s) 0 0 = Inr ((xs, xn), h1)"
    unfolding A_def by auto
  from toy_preprocess_ok [OF s, of "[5, 7, 6, 8]" 3] obtain ys yn h2 where
    q: "preprocess_and_add_noise toy_numpy [B] (SnrScalar s) 0 3 = Inr ((ys, yn), h2)"
    unfolding B_def by auto
  from noise_seed_from_snr_and_shapes [OF sh p q] obtain s0 ss x0 xr r c noise where
    l: "snr_as_list (SnrScalar s) (length [A]) = s0 # ss" and
    x: "[A] = x0 # xr" and
    rc: "shape x0 = [r, c]" and
    sa: "noise_seed 0 (snr_as_list (SnrScalar s) (length [A])) [A] =
           Inr (0 + 3 * py_int (f64 (s0 + 1)) + 5 * int (length [A]) + 7 * int r + 11 * int c)" and
    sb: "noise_seed 0 (snr_as_list (SnrScalar s) (length [B])) [B] =
           Inr (0 + 3 * py_int (f64 (s0 + 1)) + 5 * int (length [A]) + 7 * int r + 11 * int c)" and
    nd: "noise_draws toy_numpy (snr_as_list (SnrScalar s) (length [A])) (map shape [A]) 0
           (rng_seed toy_numpy
              (nat (0 + 3 * py_int (f64 (s0 + 1)) + 5 * int (length [A]) + 7 * int r + 11 * int c)))
           = (noise, h1)" and
    xn: "xn = map2 add_arrays xs noise" and yn: "yn = map2 add_arrays ys noise" and
    h: "h1 = h2"
    by blast
  from l have s0: "s0 = s" by (simp add: snr_as_list_def)
  from x rc have r: "r = 2" "c = 2" by (auto simp: A_def)
  have v: "0 + 3 * py_int (f64 (s0 + 1)) + 5 * int (length [A]) + 7 * int r + 11 * int c = 47"
    by (simp add: s0 t r)
  have sa': "noise_seed 0 (snr_as_list (SnrScalar s) 1) [A] = Inr 47"
    using sa [unfolded v] by simp
  have sb': "noise_seed 0 (snr_as_list (SnrScalar s) 1) [B] = Inr 47"
    using sb [unfolded v] by simp
  have nd': "noise_draws toy_numpy (snr_as_list (SnrScalar s) 1) [[2, 2]] 0
           (rng_seed toy_numpy 47) = (noise, h1)"
    using nd [unfolded v] by (simp add: A_def)
  from sh p q sa' sb' nd' xn yn h
  have "map shape [A] = map shape [B] \<and>
   (\<exists>xs xn h1 ys yn h2.
      preprocess_and_add_noise toy_numpy [A] (SnrScalar s) 0 0 = Inr ((xs, xn), h1) \<and>
      preprocess_and_add_noise toy_numpy [B] (SnrScalar s) 0 3 = Inr ((ys, yn), h2) \<and>
      noise_seed 0 (snr_as_list (SnrScalar s) 1) [A] = Inr 47 \<and>
      noise_seed 0 (snr_as_list (SnrScalar s) 1) [B] = Inr 47 \<and>
      (\<exists>noise. noise_draws toy_numpy (snr_as_list (SnrScalar s) 1) [[2, 2]] 0
                  (rng_seed toy_numpy 47) = (noise, h1) \<and>
               xn = map2 add_arrays xs noise \<and> yn = map2 add_arrays ys noise \<and> h1 = h2))"
    by blast
  then show ?thesis unfolding s_def A_def B_def .
qed

text \<open>
  A negative SNR does not raise: the square root is NaN, the noise arrays
  are filled with NaN, and the call returns after seeding and drawing. Here
  the sum \<^verbatim>\<open>snr[0] + 1\<close> is 0 and the seed is \<open>5 * 1 + 7 * 2 + 11 * 2 = 41\<close>.
\<close>

lemma negative_snr_gives_nan:
  "\<exists>xs xn h. preprocess_and_add_noise toy_numpy [NDArray Float32 [2, 2] vs] (SnrScalar (- 1)) 0 g
       = Inr ((xs, xn), h) \<and>
     noise_seed 0 [- 1] [NDArray Float32 [2, 2] vs] = Inr 41 \<and>
     noise_draws toy_numpy [- 1] [[2, 2]] 0 41
       = ([NDArray Float64 [2, 2] [None, None, None, None]], h) \<and>
     xn = map2 add_arrays xs [NDArray Float64 [2, 2] [None, None, None, None]]"
proof -
  have sd: "noise_seed 0 [- 1] [NDArray Float32 [2, 2] vs] = Inr 41"
    by (simp add: noise_seed_def f64_0 py_int_def)
  have "\<exists>xs xn h. preprocess_and_add_noise toy_numpy [NDArray Float32 [2, 2] vs]
      (SnrScalar (- 1)) 0 g = Inr ((xs, xn), h)"
    by (rule preprocess_ok [where sd = 41]) (use sd in simp_all)
  then obtain xs xn h where
    p: "preprocess_and_add_noise toy_numpy [NDArray Float32 [2, 2] vs] (SnrScalar (- 1)) 0 g
       = Inr ((xs, xn), h)" by blast
  from preprocess_noise [OF p] obtain sd' noise where
    a: "noise_seed 0 (snr_as_list (SnrScalar (- 1)) (length [NDArray Float32 [2, 2] vs]))
          [NDArray Float32 [2, 2] vs] = Inr sd'" and
    b: "noise_draws toy_numpy (snr_as_list (SnrScalar (- 1)) (length [NDArray Float32 [2, 2] vs]))
          (map shape [NDArray Float32 [2, 2] vs]) 0 (rng_seed toy_numpy (nat sd')) = (noise, h)" and
    c: "xn = map2 add_arrays xs noise"
    by blast
  from a sd have sd': "sd' = 41" by (simp add: snr_as_list_def)
  have d: "noise_draws toy_numpy [- 1] [[2, 2]] 0 41
       = ([NDArray Float64 [2, 2] [None, None, None, None]], 45)"
    by (simp add: np_random_randn_def np_random_normal_def toy_numpy_def scale_noise_def
        sigma_noise_def eval_nat_numeral)
  from b sd' d have "noise = [NDArray Float64 [2, 2] [None, None, None, None]]" "h = 45"
    by (simp_all add: snr_as_list_def toy_numpy_def)
  with p sd d c show ?thesis by blast
qed

section \<open>The generator\<close>

lemma toy_svd_shapes: "svd_shapes toy_numpy"
  by (simp add: svd_shapes_def toy_numpy_def toy_svd_def)

lemma svd_shapesD:
  assumes "svd_shapes L" "shape a = [m, n]" "linalg_svd L a = (u, s, vt)"
  shows "shape u = [m, min m n]" "shape s = [min m n]" "shape vt = [min m n, n]"
  using assms(1) [unfolded svd_shapes_def, rule_format, OF assms(2)]
  by (simp_all add: assms(3))

lemma FloatTensor_simps:
  "shape (FloatTensor a) = shape a" "dtype (FloatTensor a) = Float32"
  by (simp_all add: FloatTensor_def astype_def)

lemma init_W_Suc:
  assumes "np_random_uniform L (- 1) 1 [nf, ld] g = (w0, g1)"
    and "linalg_svd L w0 = (u, s, vt)"
    and "init_W L k nf ld g1 = (rest, g2)"
  shows "init_W L (Suc k) nf ld g = (FloatTensor (if nf \<ge> ld then u else vt) # rest, g2)"
  by (simp add: assms)

lemma init_W_props:
  assumes "svd_shapes L"
  shows "init_W L k nf ld g = (ws, g') \<Longrightarrow>
           length ws = k \<and> (\<forall>w\<in>set ws. shape w = [nf, ld] \<and> dtype w = Float32)"
proof (induction k arbitrary: g ws g')
  case 0
  then show ?case by simp
next
  case (Suc k)
  obtain w0 g1 where w0: "np_random_uniform L (- 1) 1 [nf, ld] g = (w0, g1)"
    by (cases "np_random_uniform L (- 1) 1 [nf, ld] g") auto
  obtain u s vt where svd: "linalg_svd L w0 = (u, s, vt)"
    by (cases "linalg_svd L w0") auto
  obtain rest g2 where rest: "init_W L k nf ld g1 = (rest, g2)"
    by (cases "init_W L k nf ld g1") auto
  from Suc.prems have ws: "ws = FloatTensor (if nf \<ge> ld then u else vt) # rest"
    unfolding init_W_Suc [OF w0 svd rest] by simp
  have "shape w0 = [nf, ld]"
    using np_random_uniform_shape [of L "- 1" 1 "[nf, ld]" g] w0 by simp
  from svd_shapesD [OF assms this svd]
  have "shape u = [nf, min nf ld]" "shape vt = [min nf ld, ld]" by simp_all
  then have sh: "shape (FloatTensor (if nf \<ge> ld then u else vt)) = [nf, ld]"
    by (simp add: FloatTensor_simps)
  from Suc.IH [OF rest] have ih: "length rest = k"
    "\<forall>w\<in>set rest. shape w = [nf, ld] \<and> dtype w = Float32" by simp_all
  show ?case
    unfolding ws using sh ih by (simp add: FloatTensor_simps)
qed

lemma GeneratorUniform_init_Inr:
  assumes "GeneratorUniform_init L ld nc nf sd g = Inr (G, g')"
  shows "gen_lat_dim G = ld \<and> gen_n_channels G = nc \<and> gen_n_feats G = nf \<and> gen_seed G = sd \<and>
         0 \<le> sd \<and> sd < 2 ^ 32 \<and> init_W L nc nf ld (rng_seed L (nat sd)) = (gen_W G, g')"
proof -
  from assms obtain g0 where g0: "np_random_seed L sd = Inr g0"
    by (cases "np_random_seed L sd") (simp_all add: GeneratorUniform_init_def)
  then have sd: "0 \<le> sd" "sd < 2 ^ 32" "g0 = rng_seed L (nat sd)"
    by (simp_all add: np_random_seed_Inr)
  obtain ws g1 where ws: "init_W L nc nf ld g0 = (ws, g1)" by (metis prod.exhaust)
  with assms g0 have "G = \<lparr>gen_lat_dim = ld, gen_n_channels = nc, gen_n_feats = nf,
      gen_seed = sd, gen_W = ws\<rparr>" "g' = g1"
    by (simp_all add: GeneratorUniform_init_def)
  with sd ws show ?thesis by simp
qed

lemma GeneratorUniform_init_ok:
  assumes "0 \<le> sd" "sd < 2 ^ 32"
  shows "\<exists>G g'. GeneratorUniform_init L ld nc nf sd g = Inr (G, g')"
  using assms by (simp add: GeneratorUniform_init_def np_random_seed_def split: prod.splits)

lemma F_linear_ok:
  assumes "shape w = [out_f, in_f]" "shape z \<noteq> []" "last (shape z) = in_f" "dtype z = dtype w"
  shows "\<exists>x. F_linear z w = Inr x \<and> shape x = butlast (shape z) @ [out_f] \<and> dtype x = dtype z"
  using assms by (simp add: F_linear_def)

lemma F_linear_Inr:
  assumes "F_linear z w = Inr x"
  shows "\<exists>out_f in_f. shape w = [out_f, in_f] \<and> shape x = butlast (shape z) @ [out_f] \<and>
           dtype x = dtype z"
proof -
  from assms obtain out_f in_f where w: "shape w = [out_f, in_f]"
    by (auto simp: F_linear_def split: list.splits)
  with assms have "shape x = butlast (shape z) @ [out_f] \<and> dtype x = dtype z"
    by (auto simp: F_linear_def split: if_splits)
  with w show ?thesis by blast
qed

lemma forward_channels_ok:
  assumes "shape z \<noteq> []" "last (shape z) = ld"
  shows "(\<forall>ch\<in>set chs. ch < length (gen_W G) \<and> shape (gen_W G ! ch) = [nf, ld] \<and>
             dtype (gen_W G ! ch) = dtype z) \<Longrightarrow>
         \<exists>obs. forward_channels G z chs = Inr obs \<and> length obs = length chs \<and>
           (\<forall>x\<in>set obs. shape x = butlast (shape z) @ [nf] \<and> dtype x = dtype z)"
proof (induction chs)
  case Nil
  then show ?case by simp
next
  case (Cons ch chs)
  from Cons.prems have ch: "ch < length (gen_W G)" "shape (gen_W G ! ch) = [nf, ld]"
    "dtype z = dtype (gen_W G ! ch)" by simp_all
  from F_linear_ok [OF ch(2) assms ch(3)] obtain x where
    x: "F_linear z (gen_W G ! ch) = Inr x" "shape x = butlast (shape z) @ [nf]"
      "dtype x = dtype z" by blast
  from Cons.IH Cons.prems obtain obs where
    obs: "forward_channels G z chs = Inr obs" "length obs = length chs"
      "\<forall>x\<in>set obs. shape x = butlast (shape z) @ [nf] \<and> dtype x = dtype z" by auto
  from ch(1) x obs show ?case by simp
qed

lemma forward_channels_shapes:
  "forward_channels G z chs = Inr obs \<Longrightarrow>
     map shape obs = map (\<lambda>ch. butlast (shape z) @ [hd (shape (gen_W G ! ch))]) chs"
proof (induction chs arbitrary: obs)
  case Nil
  then show ?case by simp
next
  case (Cons ch chs)
  from Cons.prems have ch: "ch < length (gen_W G)" by (auto split: if_splits)
  with Cons.prems obtain x where x: "F_linear z (gen_W G ! ch) = Inr x"
    by (cases "F_linear z (gen_W G ! ch)") simp_all
  with Cons.prems ch obtain rest where rest: "forward_channels G z chs = Inr rest"
    and obs: "obs = x # rest"
    by (cases "forward_channels G z chs") auto
  from F_linear_Inr [OF x] have "shape x = butlast (shape z) @ [hd (shape (gen_W G ! ch))]"
    by auto
  with Cons.IH [OF rest] obs show ?case by simp
qed

lemma forward_tensor_assertion:
  assumes "2 \<le> length (shape z)" "shape z ! 1 \<noteq> gen_lat_dim G"
  shows "forward_tensor G z = Inl AssertionError"
proof -
  from assms(1) obtain d0 d1 ds where "shape z = d0 # d1 # ds"
    by (cases "shape z"; cases "tl (shape z)") auto
  with assms(2) show ?thesis by (simp add: forward_tensor_def)
qed

lemma forward_tensor_index:
  assumes "length (shape z) < 2"
  shows "forward_tensor G z = Inl IndexError"
proof -
  from assms have "shape z = [] \<or> (\<exists>d. shape z = [d])"
    by (cases "shape z"; cases "tl (shape z)") auto
  then show ?thesis by (auto simp: forward_tensor_def)
qed

lemma forward_tensor_ok:
  assumes "svd_shapes L" and "GeneratorUniform_init L ld nc nf sd g = Inr (G, g')"
    and "dtype z = Float32" "2 \<le> length (shape z)" "shape z ! 1 = ld" "last (shape z) = ld"
  shows "\<exists>obs. forward_tensor G z = Inr obs \<and> length obs = nc \<and>
           (\<forall>x\<in>set obs. shape x = butlast (shape z) @ [nf] \<and> dtype x = Float32)"
proof -
  from GeneratorUniform_init_Inr [OF assms(2)] have G: "gen_lat_dim G = ld" "gen_n_channels G = nc"
    and W: "init_W L nc nf ld (rng_seed L (nat sd)) = (gen_W G, g')" by simp_all
  from init_W_props [OF assms(1) W] have len: "length (gen_W G) = nc"
    and each: "\<forall>w\<in>set (gen_W G). shape w = [nf, ld] \<and> dtype w = Float32" by simp_all
  from assms(4) obtain d0 d1 ds where sh: "shape z = d0 # d1 # ds"
    by (cases "shape z"; cases "tl (shape z)") auto
  with assms(5) have d1: "d1 = ld" by simp
  from sh have ne: "shape z \<noteq> []" by simp
  have "\<forall>ch\<in>set [0..<nc]. ch < length (gen_W G) \<and> shape (gen_W G ! ch) = [nf, ld] \<and>
             dtype (gen_W G ! ch) = dtype z"
    using len each assms(3) by simp
  from forward_channels_ok [OF ne assms(6) this] obtain obs where
    "forward_channels G z [0..<nc] = Inr obs" "length obs = length [0..<nc]"
    "\<forall>x\<in>set obs. shape x = butlast (shape z) @ [nf] \<and> dtype x = dtype z" by blast
  with sh d1 G assms(3) show ?thesis by (simp add: forward_tensor_def)
qed

text \<open>
  Claim C9, as amended. For a generator built by the constructor: on every
  float32 tensor of at least two axes whose second and last axes both have
  length \<open>lat_dim\<close> (every two-dimensional float32 tensor with
  \<^verbatim>\<open>z.size(1) == lat_dim\<close> is one), \<^verbatim>\<open>forward\<close> returns a list of
  \<open>n_channels\<close> outputs; on every tensor of at least two axes with
  \<^verbatim>\<open>z.size(1) != lat_dim\<close> it fails at the assertion; on a tensor of
  fewer than two axes \<^verbatim>\<open>z.size(1)\<close> itself raises IndexError.
\<close>

theorem forward_assertion_guard:
  assumes "svd_shapes L" and "GeneratorUniform_init L ld nc nf sd g = Inr (G, g')"
  shows "(\<forall>z. dtype z = Float32 \<and> 2 \<le> length (shape z) \<and> shape z ! 1 = ld \<and> last (shape z) = ld
            \<longrightarrow> (\<exists>obs. forward G (ZTensor z) = Inr (Obs obs) \<and> length obs = nc)) \<and>
         (\<forall>z. 2 \<le> length (shape z) \<and> shape z ! 1 \<noteq> ld
            \<longrightarrow> forward G (ZTensor z) = Inl AssertionError) \<and>
         (\<forall>z. length (shape z) < 2 \<longrightarrow> forward G (ZTensor z) = Inl IndexError)"
proof (intro conjI allI impI)
  fix z :: ndarray
  assume z: "dtype z = Float32 \<and> 2 \<le> length (shape z) \<and> shape z ! 1 = ld \<and> last (shape z) = ld"
  then have "dtype z = Float32" "2 \<le> length (shape z)" "shape z ! 1 = ld" "last (shape z) = ld"
    by simp_all
  from forward_tensor_ok [OF assms this] obtain obs where
    "forward_tensor G z = Inr obs" "length obs = nc" by blast
  then show "\<exists>obs. forward G (ZTensor z) = Inr (Obs obs) \<and> length obs = nc" by simp
next
  fix z :: ndarray
  assume z: "2 \<le> length (shape z) \<and> shape z ! 1 \<noteq> ld"
  from GeneratorUniform_init_Inr [OF assms(2)] have "gen_lat_dim G = ld" by simp
  with z have "forward_tensor G z = Inl AssertionError"
    by (intro forward_tensor_assertion) simp_all
  then show "forward G (ZTensor z) = Inl AssertionError" by simp
next
  fix z :: ndarray
  assume "length (shape z) < 2"
  then have "forward_tensor G z = Inl IndexError" by (rule forward_tensor_index)
  then show "forward G (ZTensor z) = Inl IndexError" by simp
qed

lemma eye_2_2: "eye 2 2 = [1, 0, 0, 1]"
  by code_simp

lemma toy_uniform_2_2:
  "np_random_uniform toy_numpy (- 1) 1 [2, 2] 100 = (NDArray Float64 [2, 2] [0, 0, 0, 0], 104)"
  by (simp add: np_random_uniform_def toy_numpy_def eval_nat_numeral)

lemma toy_init_W:
  "init_W toy_numpy (Suc 0) 2 2 100 = ([NDArray Float32 [2, 2] [1, 0, 0, 1]], 104)"
proof -
  have svd: "linalg_svd toy_numpy (NDArray Float64 [2, 2] [0, 0, 0, 0]) =
      (NDArray Float64 [2, 2] [1, 0, 0, 1], NDArray Float64 [2] (replicate 2 0),
       NDArray Float64 [2, 2] [1, 0, 0, 1])"
    by (simp add: toy_numpy_def toy_svd_def eye_2_2)
  have ft: "FloatTensor (NDArray Float64 [2, 2] [1, 0, 0, 1]) = NDArray Float32 [2, 2] [1, 0, 0, 1]"
    by (simp add: FloatTensor_def astype_def round_as_def f32_0 f32_1)
  show ?thesis
    by (simp add: toy_uniform_2_2 svd ft)
qed

lemma toy_generator:
  "GeneratorUniform_init toy_numpy 2 1 2 100 0 =
     Inr (\<lparr>gen_lat_dim = 2, gen_n_channels = 1, gen_n_feats = 2, gen_seed = 100,
           gen_W = [NDArray Float32 [2, 2] [1, 0, 0, 1]]\<rparr>, 104)"
proof -
  have "np_random_seed toy_numpy 100 = Inr 100"
    by (simp add: np_random_seed_def toy_numpy_def)
  then show ?thesis
    by (simp add: GeneratorUniform_init_def toy_init_W del: init_W.simps)
qed

text \<open>
  Claim C9 as stated fails on a tensor of three axes and on a float64 tensor:
  for the generator with \<open>lat_dim = 2\<close>, \<open>n_channels = 1\<close> and
  \<open>n_feats = 2\<close>, a float32 tensor of shape \<open>(1, 2, 3)\<close> and a float64
  tensor of shape \<open>(1, 2)\<close> both have \<^verbatim>\<open>z.size(1) == lat_dim\<close>, pass the
  assertion and make the linear layer raise RuntimeError.
\<close>

theorem forward_passes_assertion_and_fails:
  "GeneratorUniform_init toy_numpy 2 1 2 100 0 =
     Inr (\<lparr>gen_lat_dim = 2, gen_n_channels = 1, gen_n_feats = 2, gen_seed = 100,
           gen_W = [NDArray Float32 [2, 2] [1, 0, 0, 1]]\<rparr>, 104) \<and>
   shape (NDArray Float32 [1, 2, 3] [0, 0, 0, 0, 0, 0]) ! 1 = 2 \<and>
   forward \<lparr>gen_lat_dim = 2, gen_n_channels = 1, gen_n_feats = 2, gen_seed = 100,
            gen_W = [NDArray Float32 [2, 2] [1, 0, 0, 1]]\<rparr>
     (ZTensor (NDArray Float32 [1, 2, 3] [0, 0, 0, 0, 0, 0])) = Inl RuntimeError \<and>
   shape (NDArray Float64 [1, 2] [0, 0]) ! 1 = 2 \<and>
   forward \<lparr>gen_lat_dim = 2, gen_n_channels = 1, gen_n_feats = 2, gen_seed = 100,
            gen_W = [NDArray Float32 [2, 2] [1, 0, 0, 1]]\<rparr>
     (ZTensor (NDArray Float64 [1, 2] [0, 0])) = Inl RuntimeError"
proof (intro conjI)
  show "GeneratorUniform_init toy_numpy 2 1 2 100 0 =
     Inr (\<lparr>gen_lat_dim = 2, gen_n_channels = 1, gen_n_feats = 2, gen_seed = 100,
           gen_W = [NDArray Float32 [2, 2] [1, 0, 0, 1]]\<rparr>, 104)"
    by (rule toy_generator)
qed (simp_all add: forward_tensor_def F_linear_def)

theorem forward_assertion_guard_witness:
  "svd_shapes toy_numpy \<and>
   GeneratorUniform_init toy_numpy 2 1 2 100 0 =
     Inr (\<lparr>gen_lat_dim = 2, gen_n_channels = 1, gen_n_feats = 2, gen_seed = 100,
           gen_W = [NDArray Float32 [2, 2] [1, 0, 0, 1]]\<rparr>, 104) \<and>
   (\<exists>obs. forward \<lparr>gen_lat_dim = 2, gen_n_channels = 1, gen_n_feats = 2, gen_seed = 100,
            gen_W = [NDArray Float32 [2, 2] [1, 0, 0, 1]]\<rparr>
        (ZTensor (NDArray Float32 [3, 2] [1, 2, 3, 4, 5, 6])) = Inr (Obs obs) \<and> length obs = 1) \<and>
   forward \<lparr>gen_lat_dim = 2, gen_n_channels = 1, gen_n_feats = 2, gen_seed = 100,
            gen_W = [NDArray Float32 [2, 2] [1, 0, 0, 1]]\<rparr>
     (ZTensor (NDArray Float32 [3, 5] (replicate 15 0))) = Inl AssertionError"
proof -
  note g = forward_assertion_guard [OF toy_svd_shapes toy_generator]
  from g have a: "\<forall>z. dtype z = Float32 \<and> 2 \<le> length (shape z) \<and> shape z ! 1 = 2 \<and>
       last (shape z) = 2 \<longrightarrow>
       (\<exists>obs. forward \<lparr>gen_lat_dim = 2, gen_n_channels = 1, gen_n_feats = 2, gen_seed = 100,
            gen_W = [NDArray Float32 [2, 2] [1, 0, 0, 1]]\<rparr> (ZTensor z) = Inr (Obs obs) \<and>
          length obs = 1)"
    by (rule conjunct1)
  from g have b: "\<forall>z. 2 \<le> length (shape z) \<and> shape z ! 1 \<noteq> 2 \<longrightarrow>
       forward \<lparr>gen_lat_dim = 2, gen_n_channels = 1, gen_n_feats = 2, gen_seed = 100,
            gen_W = [NDArray Float32 [2, 2] [1, 0, 0, 1]]\<rparr> (ZTensor z) = Inl AssertionError"
    by (elim conjE)
  have a': "\<exists>obs. forward \<lparr>gen_lat_dim = 2, gen_n_channels = 1, gen_n_feats = 2, gen_seed = 100,
            gen_W = [NDArray Float32 [2, 2] [1, 0, 0, 1]]\<rparr>
        (ZTensor (NDArray Float32 [3, 2] [1, 2, 3, 4, 5, 6])) = Inr (Obs obs) \<and> length obs = 1"
    by (rule a [rule_format]) simp
  have b': "forward \<lparr>gen_lat_dim = 2, gen_n_channels = 1, gen_n_feats = 2, gen_seed = 100,
            gen_W = [NDArray Float32 [2, 2] [1, 0, 0, 1]]\<rparr>
     (ZTensor (NDArray Float32 [3, 5] (replicate 15 0))) = Inl AssertionError"
    by (rule b [rule_format]) simp
  from toy_svd_shapes toy_generator a' b' show ?thesis by (intro conjI)
qed

text \<open>
  Claim C3. Constructing the generator with the same arguments gives the
  same result whatever the state of the global random generator before each
  construction: the same weight matrices, hence the same outputs of
  \<^verbatim>\<open>forward\<close> on every input. Likewise two constructions of the dataset
  with the same arguments give the same latent samples, the same channel
  projections and the same standardised and noisy arrays.
\<close>

theorem construction_ignores_generator_state:
  "GeneratorUniform_init L ld nc nf sd g1 = GeneratorUniform_init L ld nc nf sd g2 \<and>
   (\<forall>G1 h1 G2 h2 z.
       GeneratorUniform_init L ld nc nf sd g1 = Inr (G1, h1) \<and>
       GeneratorUniform_init L ld nc nf sd g2 = Inr (G2, h2)
       \<longrightarrow> gen_W G1 = gen_W G2 \<and> forward G1 z = forward G2 z) \<and>
   SyntheticDataset_init L n ld2 nf2 nc2 snr0 tr g1 = SyntheticDataset_init L n ld2 nf2 nc2 snr0 tr g2 \<and>
   (\<forall>d1 k1 d2 k2.
       SyntheticDataset_init L n ld2 nf2 nc2 snr0 tr g1 = Inr (d1, k1) \<and>
       SyntheticDataset_init L n ld2 nf2 nc2 snr0 tr g2 = Inr (d2, k2)
       \<longrightarrow> ds_z d1 = ds_z d2 \<and> ds_x d1 = ds_x d2 \<and> ds_X d1 = ds_X d2 \<and>
           ds_X_noisy d1 = ds_X_noisy d2)"
proof -
  have gen: "GeneratorUniform_init L ld nc nf sd g1 = GeneratorUniform_init L ld nc nf sd g2"
    by (simp add: GeneratorUniform_init_def)
  have ds: "SyntheticDataset_init L n ld2 nf2 nc2 snr0 tr g1
              = SyntheticDataset_init L n ld2 nf2 nc2 snr0 tr g2"
    by (simp add: SyntheticDataset_init_def)
  show ?thesis
  proof (intro conjI allI impI)
    show "GeneratorUniform_init L ld nc nf sd g1 = GeneratorUniform_init L ld nc nf sd g2"
      by (rule gen)
    show "SyntheticDataset_init L n ld2 nf2 nc2 snr0 tr g1
              = SyntheticDataset_init L n ld2 nf2 nc2 snr0 tr g2"
      by (rule ds)
  next
    fix G1 h1 G2 h2 z
    assume "GeneratorUniform_init L ld nc nf sd g1 = Inr (G1, h1) \<and>
            GeneratorUniform_init L ld nc nf sd g2 = Inr (G2, h2)"
    with gen have eq: "G1 = G2" by simp
    show "gen_W G1 = gen_W G2" by (simp add: eq)
    show "forward G1 z = forward G2 z" by (simp add: eq)
  next
    fix d1 k1 d2 k2
    assume "SyntheticDataset_init L n ld2 nf2 nc2 snr0 tr g1 = Inr (d1, k1) \<and>
            SyntheticDataset_init L n ld2 nf2 nc2 snr0 tr g2 = Inr (d2, k2)"
    with ds have eq: "d1 = d2" by simp
    show "ds_z d1 = ds_z d2" "ds_x d1 = ds_x d2" "ds_X d1 = ds_X d2"
      "ds_X_noisy d1 = ds_X_noisy d2" by (simp_all add: eq)
  qed
qed

theorem construction_ignores_generator_state_witness:
  "GeneratorUniform_init toy_numpy 2 1 2 100 0 = GeneratorUniform_init toy_numpy 2 1 2 100 7 \<and>
   SyntheticDataset_init toy_numpy 2 1 2 1 (SnrScalar 1) True 0 =
     SyntheticDataset_init toy_numpy 2 1 2 1 (SnrScalar 1) True 7"
proof -
  note t = construction_ignores_generator_state [where L = toy_numpy and ld = 2 and nc = 1
      and nf = 2 and sd = 100 and ?g1.0 = 0 and ?g2.0 = 7 and n = 2 and ?ld2.0 = 1 and ?nf2.0 = 2
      and ?nc2.0 = 1 and ?snr0.0 = "SnrScalar 1" and tr = True]
  from t have a: "GeneratorUniform_init toy_numpy 2 1 2 100 0 =
      GeneratorUniform_init toy_numpy 2 1 2 100 7"
    by (rule conjunct1)
  from t have b: "SyntheticDataset_init toy_numpy 2 1 2 1 (SnrScalar 1) True 0 =
     SyntheticDataset_init toy_numpy 2 1 2 1 (SnrScalar 1) True 7"
    by (elim conjE)
  from a b show ?thesis by (rule conjI)
qed

section \<open>The dataset\<close>

lemma seed_train:
  "np_random_seed L (if tr then 7 else 14) = Inr (rng_seed L (if tr then 7 else 14))"
  by (simp add: np_random_seed_def)

lemma SyntheticDataset_init_Inr:
  assumes "SyntheticDataset_init L n ld nf nc snr0 tr g = Inr (d, h)"
  shows "\<exists>g2 G g3 x X Xn.
           np_random_normal L [n, ld] (rng_seed L (if tr then 7 else 14)) = (ds_z d, g2) \<and>
           GeneratorUniform_init L ld nc nf 100 g2 = Inr (G, g3) \<and>
           forward_tensor G (FloatTensor (ds_z d)) = Inr x \<and>
           preprocess_and_add_noise L x snr0 0 g3 = Inr ((X, Xn), h) \<and>
           ds_generator d = G \<and> ds_x d = x \<and> ds_X d = map (astype Float32) X \<and>
           ds_X_noisy d = Xn \<and> ds_n_samples d = n"
proof -
  obtain z g2 where z: "np_random_normal L [n, ld] (rng_seed L (if tr then 7 else 14)) = (z, g2)"
    by (cases "np_random_normal L [n, ld] (rng_seed L (if tr then 7 else 14))") auto
  note start = SyntheticDataset_init_def seed_train z
  from assms obtain P where P: "GeneratorUniform_init L ld nc nf 100 g2 = Inr P"
    by (cases "GeneratorUniform_init L ld nc nf 100 g2") (simp_all add: start)
  obtain G g3 where G: "P = (G, g3)" by (cases P) auto
  from assms P G obtain x where x: "forward_tensor G (FloatTensor z) = Inr x"
    by (cases "forward_tensor G (FloatTensor z)") (simp_all add: start)
  from assms P G x obtain Q where Q: "preprocess_and_add_noise L x snr0 0 g3 = Inr Q"
    by (cases "preprocess_and_add_noise L x snr0 0 g3") (simp_all add: start)
  obtain X Xn g4 where Q': "Q = ((X, Xn), g4)" by (cases Q) auto
  from assms P G x Q Q' have
    d: "d = \<lparr>ds_n_samples = n, ds_lat_dim = ld, ds_n_feats = nf, ds_n_channels = nc,
             ds_snr = snr0, ds_train = tr, ds_z = z, ds_generator = G, ds_x = x,
             ds_X = map (astype Float32) X, ds_X_noisy = Xn\<rparr>" and h: "h = g4"
    by (simp_all add: start)
  show ?thesis
    using z P G x Q Q' by (intro exI [of _ g2] exI [of _ G] exI [of _ g3] exI [of _ x]
        exI [of _ X] exI [of _ Xn]) (simp add: d h)
qed

lemma SyntheticDataset_init_ok:
  assumes "svd_shapes L" "0 < n" "0 < nf" "0 < nc" "0 < s"
    and "3 * py_int (f64 (s + 1)) + 5 * int nc + 7 * int n + 11 * int nf < 2 ^ 32"
    and "0 \<le> py_int (f64 (s + 1))"
  shows "\<exists>d h. SyntheticDataset_init L n ld nf nc (SnrScalar s) tr g = Inr (d, h)"
proof -
  obtain z g2 where z: "np_random_normal L [n, ld] (rng_seed L (if tr then 7 else 14)) = (z, g2)"
    by (cases "np_random_normal L [n, ld] (rng_seed L (if tr then 7 else 14))") auto
  have zs: "shape z = [n, ld]"
    using np_random_normal_array [of L "[n, ld]" "rng_seed L (if tr then 7 else 14)"] z by simp
  from GeneratorUniform_init_ok [of 100 L ld nc nf g2] obtain G g3 where
    G: "GeneratorUniform_init L ld nc nf 100 g2 = Inr (G, g3)" by auto
  have "\<exists>obs. forward_tensor G (FloatTensor z) = Inr obs \<and> length obs = nc \<and>
           (\<forall>x\<in>set obs. shape x = butlast (shape (FloatTensor z)) @ [nf] \<and> dtype x = Float32)"
    by (rule forward_tensor_ok [OF assms(1) G]) (simp_all add: FloatTensor_simps zs)
  then obtain x where x: "forward_tensor G (FloatTensor z) = Inr x" and lx: "length x = nc"
    and sx: "\<forall>a\<in>set x. shape a = [n, nf]"
    by (auto simp: FloatTensor_simps zs)
  from lx assms(4) obtain x0 xr where x0: "x = x0 # xr" by (cases x) auto
  with sx have "shape x0 = [n, nf]" by simp
  with x0 lx assms(4) have ns: "noise_seed 0 (replicate (length x) s) x =
      Inr (3 * py_int (f64 (s + 1)) + 5 * int nc + 7 * int n + 11 * int nf)"
    by (cases nc) (simp_all add: noise_seed_def)
  have nonneg: "0 \<le> 3 * py_int (f64 (s + 1)) + 5 * int nc + 7 * int n + 11 * int nf"
    using assms(7) by simp
  have xsh: "\<forall>a\<in>set x. \<exists>r c. shape a = [r, c] \<and> 0 < r \<and> 0 < c"
    using sx assms(2,3) by simp
  from assms(5) have "s \<noteq> 0" by simp
  from preprocess_ok [where L = L and g = g3, OF this xsh ns nonneg assms(6)]
  obtain X Xn h where
    "preprocess_and_add_noise L x (SnrScalar s) 0 g3 = Inr ((X, Xn), h)" by blast
  with z G x show ?thesis
    by (simp add: SyntheticDataset_init_def seed_train)
qed

lemma SyntheticDataset_init_shapes:
  assumes "svd_shapes L" and "SyntheticDataset_init L n ld nf nc snr0 tr g = Inr (d, h)"
  shows "length (ds_X d) = nc \<and>
         (\<forall>c<nc. shape (ds_X d ! c) = [n, nf] \<and> dtype (ds_X d ! c) = Float32 \<and>
            length (data (ds_X d ! c)) = n * nf)"
proof -
  from SyntheticDataset_init_Inr [OF assms(2)] obtain g2 G g3 x X Xn where
    z: "np_random_normal L [n, ld] (rng_seed L (if tr then 7 else 14)) = (ds_z d, g2)" and
    G: "GeneratorUniform_init L ld nc nf 100 g2 = Inr (G, g3)" and
    x: "forward_tensor G (FloatTensor (ds_z d)) = Inr x" and
    pp: "preprocess_and_add_noise L x snr0 0 g3 = Inr ((X, Xn), h)" and
    X: "ds_X d = map (astype Float32) X"
    by blast
  have zs: "shape (ds_z d) = [n, ld]"
    using np_random_normal_array [of L "[n, ld]" "rng_seed L (if tr then 7 else 14)"] z by simp
  have "\<exists>obs. forward_tensor G (FloatTensor (ds_z d)) = Inr obs \<and> length obs = nc \<and>
           (\<forall>x\<in>set obs. shape x = butlast (shape (FloatTensor (ds_z d))) @ [nf] \<and>
              dtype x = Float32)"
    by (rule forward_tensor_ok [OF assms(1) G]) (simp_all add: FloatTensor_simps zs)
  with x have lx: "length x = nc" and sx: "\<forall>a\<in>set x. shape a = [n, nf]"
    by (auto simp: FloatTensor_simps zs)
  from preprocess_std [OF pp] have lX: "length X = length x" and
    each: "\<forall>i<length x. shape (X ! i) = shape (x ! i) \<and>
             length (data (X ! i)) = prod_list (shape (x ! i))" by simp_all
  show ?thesis
  proof (intro conjI allI impI)
    show "length (ds_X d) = nc" by (simp add: X lX lx)
  next
    fix c assume c: "c < nc"
    with lx sx have "shape (x ! c) = [n, nf]" by simp
    with each c lx have "shape (X ! c) = [n, nf]" "length (data (X ! c)) = n * nf" by simp_all
    with c lx lX show "shape (ds_X d ! c) = [n, nf]" "dtype (ds_X d ! c) = Float32"
      "length (data (ds_X d ! c)) = n * nf"
      by (simp_all add: X astype_def)
  qed
qed

text \<open>
  Claim C4. With \<open>n_samples = 500\<close>, \<open>lat_dim = 2\<close>, \<open>n_feats = 4\<close> and
  \<open>n_channels = 3\<close>, for either value of \<^verbatim>\<open>train\<close> and a scalar SNR
  between 0 and \<open>1e9\<close> (the defaults and the script's value 10 among them),
  the construction of the dataset succeeds, the dataset has length 500, and
  \<^verbatim>\<open>self.X\<close> holds three float32 arrays of shape \<open>(500, 4)\<close>.
\<close>

theorem dataset_shapes_500_4:
  assumes "svd_shapes L" and "0 < s" and "s \<le> 1000000000"
  shows "\<exists>d h. SyntheticDataset_init L 500 2 4 3 (SnrScalar s) tr g = Inr (d, h) \<and>
           SyntheticDataset_len d = 500 \<and> length (ds_X d) = 3 \<and>
           (\<forall>c<3. shape (ds_X d ! c) = [500, 4] \<and> dtype (ds_X d ! c) = Float32 \<and>
              length (data (ds_X d ! c)) = 2000)"
proof -
  note b = py_int_f64_bound [OF assms(2,3)]
  from b(2) have "3 * py_int (f64 (s + 1)) + 5 * int 3 + 7 * int 500 + 11 * int 4 < 2 ^ 32"
    by simp
  from SyntheticDataset_init_ok [OF assms(1) _ _ _ assms(2) this b(1), of 2 tr g]
  obtain d h where d: "SyntheticDataset_init L 500 2 4 3 (SnrScalar s) tr g = Inr (d, h)"
    by auto
  from SyntheticDataset_init_shapes [OF assms(1) d] have
    "length (ds_X d) = 3"
    "\<forall>c<3. shape (ds_X d ! c) = [500, 4] \<and> dtype (ds_X d ! c) = Float32 \<and>
              length (data (ds_X d ! c)) = 500 * 4" by simp_all
  moreover from SyntheticDataset_init_Inr [OF d] have "SyntheticDataset_len d = 500"
    by (auto simp: SyntheticDataset_len_def)
  ultimately show ?thesis using d by auto
qed

theorem dataset_shapes_500_4_witness:
  "svd_shapes toy_numpy \<and> (0::real) < 10 \<and> (10::real) \<le> 1000000000 \<and>
   (\<exists>d h. SyntheticDataset_init toy_numpy 500 2 4 3 (SnrScalar 10) True 0 = Inr (d, h) \<and>
           SyntheticDataset_len d = 500 \<and> length (ds_X d) = 3 \<and>
           (\<forall>c<3. shape (ds_X d ! c) = [500, 4] \<and> dtype (ds_X d ! c) = Float32 \<and>
              length (data (ds_X d ! c)) = 2000))"
proof (intro conjI)
  show a: "svd_shapes toy_numpy" by (rule toy_svd_shapes)
  show b: "(0::real) < 10" by simp
  show c: "(10::real) \<le> 1000000000" by simp
  show "\<exists>d h. SyntheticDataset_init toy_numpy 500 2 4 3 (SnrScalar 10) True 0 = Inr (d, h) \<and>
           SyntheticDataset_len d = 500 \<and> length (ds_X d) = 3 \<and>
           (\<forall>c<3. shape (ds_X d ! c) = [500, 4] \<and> dtype (ds_X d ! c) = Float32 \<and>
              length (data (ds_X d ! c)) = 2000)"
    by (rule dataset_shapes_500_4 [OF a b c])
qed

lemma forward_tensor_shapes:
  assumes "forward_tensor G z1 = Inr x1" "forward_tensor G z2 = Inr x2" "shape z1 = shape z2"
  shows "map shape x1 = map shape x2"
proof -
  from assms(1) obtain d0 d1 ds where sh: "shape z1 = d0 # d1 # ds"
    by (cases "shape z1"; cases "tl (shape z1)") (auto simp: forward_tensor_def)
  with assms(1) have c1: "forward_channels G z1 [0..<gen_n_channels G] = Inr x1"
    by (auto simp: forward_tensor_def split: if_splits)
  from sh assms(2,3) have c2: "forward_channels G z2 [0..<gen_n_channels G] = Inr x2"
    by (auto simp: forward_tensor_def split: if_splits)
  from forward_channels_shapes [OF c1] forward_channels_shapes [OF c2] assms(3)
  show ?thesis by simp
qed

text \<open>
  Claim C10. Two datasets constructed with the same arguments but for
  \<^verbatim>\<open>train=True\<close> and \<^verbatim>\<open>train=False\<close>: the seed of the noise is the same
  number for both, the noise arrays drawn after it are the same list
  \<open>noise\<close> for both, and each dataset's \<^verbatim>\<open>X_noisy\<close> is its own
  standardised channels plus that noise, channel by channel, while
  \<^verbatim>\<open>X\<close> is the float32 copy of the standardised channels. The generator
  is the same and numpy's generator is left in the same state. The latent
  samples are the draws after the seeds 7 and 14.
\<close>

theorem noise_ignores_train_flag:
  assumes "SyntheticDataset_init L n ld nf nc snr0 True g1 = Inr (d1, h1)"
    and "SyntheticDataset_init L n ld nf nc snr0 False g2 = Inr (d2, h2)"
  shows "\<exists>sd noise X1 X2 k.
           noise_seed 0 (snr_as_list snr0 (length (ds_x d1))) (ds_x d1) = Inr sd \<and>
           noise_seed 0 (snr_as_list snr0 (length (ds_x d2))) (ds_x d2) = Inr sd \<and>
           noise_draws L (snr_as_list snr0 (length (ds_x d1))) (map shape (ds_x d1)) 0
             (rng_seed L (nat sd)) = (noise, h1) \<and>
           preprocess_and_add_noise L (ds_x d1) snr0 0 k = Inr ((X1, ds_X_noisy d1), h1) \<and>
           preprocess_and_add_noise L (ds_x d2) snr0 0 k = Inr ((X2, ds_X_noisy d2), h2) \<and>
           ds_X d1 = map (astype Float32) X1 \<and> ds_X d2 = map (astype Float32) X2 \<and>
           ds_X_noisy d1 = map2 add_arrays X1 noise \<and>
           ds_X_noisy d2 = map2 add_arrays X2 noise \<and>
           h1 = h2 \<and> ds_generator d1 = ds_generator d2 \<and>
           ds_z d1 = fst (np_random_normal L [n, ld] (rng_seed L 7)) \<and>
           ds_z d2 = fst (np_random_normal L [n, ld] (rng_seed L 14))"
proof -
  from SyntheticDataset_init_Inr [OF assms(1)] obtain ga G1 g3a x1 X1 Xn1 where
    z1: "np_random_normal L [n, ld] (rng_seed L 7) = (ds_z d1, ga)" and
    G1: "GeneratorUniform_init L ld nc nf 100 ga = Inr (G1, g3a)" and
    x1: "forward_tensor G1 (FloatTensor (ds_z d1)) = Inr x1" and
    p1: "preprocess_and_add_noise L x1 snr0 0 g3a = Inr ((X1, Xn1), h1)" and
    d1: "ds_generator d1 = G1" "ds_x d1 = x1" "ds_X d1 = map (astype Float32) X1"
      "ds_X_noisy d1 = Xn1"
    by auto
  from SyntheticDataset_init_Inr [OF assms(2)] obtain gb G2 g3b x2 X2 Xn2 where
    z2: "np_random_normal L [n, ld] (rng_seed L 14) = (ds_z d2, gb)" and
    G2: "GeneratorUniform_init L ld nc nf 100 gb = Inr (G2, g3b)" and
    x2: "forward_tensor G2 (FloatTensor (ds_z d2)) = Inr x2" and
    p2: "preprocess_and_add_noise L x2 snr0 0 g3b = Inr ((X2, Xn2), h2)" and
    d2: "ds_generator d2 = G2" "ds_x d2 = x2" "ds_X d2 = map (astype Float32) X2"
      "ds_X_noisy d2 = Xn2"
    by auto
  have "GeneratorUniform_init L ld nc nf 100 ga = GeneratorUniform_init L ld nc nf 100 gb"
    by (simp add: GeneratorUniform_init_def)
  with G1 G2 have G: "G2 = G1" and g3: "g3b = g3a" by simp_all
  have s1: "shape (ds_z d1) = [n, ld]"
    using np_random_normal_array [of L "[n, ld]" "rng_seed L 7"] z1 by simp
  have s2: "shape (ds_z d2) = [n, ld]"
    using np_random_normal_array [of L "[n, ld]" "rng_seed L 14"] z2 by simp
  have shapes: "map shape x1 = map shape x2"
    by (rule forward_tensor_shapes [OF x1 x2 [unfolded G]]) (simp add: FloatTensor_simps s1 s2)
  then have len: "length x1 = length x2" by (rule map_eq_imp_length_eq)
  from preprocess_noise [OF p1] obtain sd noise where
    sd: "noise_seed 0 (snr_as_list snr0 (length x1)) x1 = Inr sd" and
    n1: "noise_draws L (snr_as_list snr0 (length x1)) (map shape x1) 0 (rng_seed L (nat sd))
           = (noise, h1)" and
    a1: "Xn1 = map2 add_arrays X1 noise"
    by blast
  from preprocess_noise [OF p2] obtain sd' noise' where
    sd': "noise_seed 0 (snr_as_list snr0 (length x2)) x2 = Inr sd'" and
    n2: "noise_draws L (snr_as_list snr0 (length x2)) (map shape x2) 0 (rng_seed L (nat sd'))
           = (noise', h2)" and
    a2: "Xn2 = map2 add_arrays X2 noise'"
    by blast
  from sd sd' noise_seed_shapes [OF shapes, of 0 "snr_as_list snr0 (length x1)"] len
  have same_seed: "sd' = sd" by simp
  with n1 n2 len shapes have same: "noise' = noise" "h2 = h1" by simp_all
  have c1: "noise_seed 0 (snr_as_list snr0 (length (ds_x d1))) (ds_x d1) = Inr sd"
    using sd by (simp add: d1)
  have c2: "noise_seed 0 (snr_as_list snr0 (length (ds_x d2))) (ds_x d2) = Inr sd"
    using sd' same_seed by (simp add: d2)
  have c3: "noise_draws L (snr_as_list snr0 (length (ds_x d1))) (map shape (ds_x d1)) 0
             (rng_seed L (nat sd)) = (noise, h1)"
    using n1 by (simp add: d1)
  have c4: "preprocess_and_add_noise L (ds_x d1) snr0 0 g3a = Inr ((X1, ds_X_noisy d1), h1)"
    using p1 by (simp add: d1)
  have c5: "preprocess_and_add_noise L (ds_x d2) snr0 0 g3a = Inr ((X2, ds_X_noisy d2), h2)"
    using p2 by (simp add: d2 g3)
  have c8: "ds_X_noisy d1 = map2 add_arrays X1 noise" using a1 by (simp add: d1)
  have c9: "ds_X_noisy d2 = map2 add_arrays X2 noise" using a2 same by (simp add: d2)
  have c10: "h1 = h2" using same by simp
  have c11: "ds_generator d1 = ds_generator d2" by (simp add: d1 d2 G)
  have c12: "ds_z d1 = fst (np_random_normal L [n, ld] (rng_seed L 7))" by (simp add: z1)
  have c13: "ds_z d2 = fst (np_random_normal L [n, ld] (rng_seed L 14))" by (simp add: z2)
  show ?thesis
    by (intro exI [of _ sd] exI [of _ noise] exI [of _ X1] exI [of _ X2] exI [of _ g3a] conjI)
       (rule c1 c2 c3 c4 c5 d1(3) d2(3) c8 c9 c10 c11 c12 c13)+
qed

theorem noise_ignores_train_flag_witness:
  "\<exists>d1 h1 d2 h2.
     SyntheticDataset_init toy_numpy 2 1 2 1 (SnrScalar 4) True 0 = Inr (d1, h1) \<and>
     SyntheticDataset_init toy_numpy 2 1 2 1 (SnrScalar 4) False 5 = Inr (d2, h2) \<and>
     (\<exists>sd noise X1 X2 k.
           noise_seed 0 (snr_as_list (SnrScalar 4) (length (ds_x d1))) (ds_x d1) = Inr sd \<and>
           noise_seed 0 (snr_as_list (SnrScalar 4) (length (ds_x d2))) (ds_x d2) = Inr sd \<and>
           noise_draws toy_numpy (snr_as_list (SnrScalar 4) (length (ds_x d1)))
             (map shape (ds_x d1)) 0 (rng_seed toy_numpy (nat sd)) = (noise, h1) \<and>
           preprocess_and_add_noise toy_numpy (ds_x d1) (SnrScalar 4) 0 k
             = Inr ((X1, ds_X_noisy d1), h1) \<and>
           preprocess_and_add_noise toy_numpy (ds_x d2) (SnrScalar 4) 0 k
             = Inr ((X2, ds_X_noisy d2), h2) \<and>
           ds_X d1 = map (astype Float32) X1 \<and> ds_X d2 = map (astype Float32) X2 \<and>
           ds_X_noisy d1 = map2 add_arrays X1 noise \<and>
           ds_X_noisy d2 = map2 add_arrays X2 noise \<and>
           h1 = h2 \<and> ds_generator d1 = ds_generator d2 \<and>
           ds_z d1 = fst (np_random_normal toy_numpy [2, 1] (rng_seed toy_numpy 7)) \<and>
           ds_z d2 = fst (np_random_normal toy_numpy [2, 1] (rng_seed toy_numpy 14)))"
proof -
  have s: "(0::real) < 4" "(4::real) \<le> 1000000000" by simp_all
  note b = py_int_f64_bound [OF s]
  from b(2) have seed: "3 * py_int (f64 (4 + 1)) + 5 * int 1 + 7 * int 2 + 11 * int 2 < 2 ^ 32"
    by simp
  from SyntheticDataset_init_ok [OF toy_svd_shapes _ _ _ s(1) seed b(1), of 1 True 0]
  obtain d1 h1 where a: "SyntheticDataset_init toy_numpy 2 1 2 1 (SnrScalar 4) True 0 = Inr (d1, h1)"
    by auto
  from SyntheticDataset_init_ok [OF toy_svd_shapes _ _ _ s(1) seed b(1), of 1 False 5]
  obtain d2 h2 where c: "SyntheticDataset_init toy_numpy 2 1 2 1 (SnrScalar 4) False 5 = Inr (d2, h2)"
    by auto
  from a c noise_ignores_train_flag [OF a c] show ?thesis
    by (intro exI [of _ d1] exI [of _ h1] exI [of _ d2] exI [of _ h2] conjI)
qed

section \<open>The gate of the script\<close>

text \<open>
  Claim C7. If \<^verbatim>\<open>CI_MODE\<close> is a key of the process environment, the script
  exits at the gate, whatever the libraries and the generator's state are,
  so before any dataset, model or training; if it is not, the script runs its
  body, which starts with the construction of the datasets.
\<close>

theorem ci_mode_gate:
  "(environ ''CI_MODE'' \<noteq> None \<longrightarrow> script P L environ g = Inl SystemExit) \<and>
   (environ ''CI_MODE'' = None \<longrightarrow> script P L environ g = script_body P L g)"
  by (auto simp: script_def)

theorem ci_mode_gate_witness:
  "script toy_pynet toy_numpy [''CI_MODE'' \<mapsto> ''1''] 0 = Inl SystemExit \<and>
   script toy_pynet toy_numpy Map.empty 0 = script_body toy_pynet toy_numpy 0"
proof (rule conjI)
  from ci_mode_gate [of "[''CI_MODE'' \<mapsto> ''1'']" toy_pynet toy_numpy 0]
  show "script toy_pynet toy_numpy [''CI_MODE'' \<mapsto> ''1''] 0 = Inl SystemExit" by simp
  from ci_mode_gate [of Map.empty toy_pynet toy_numpy 0]
  show "script toy_pynet toy_numpy Map.empty 0 = script_body toy_pynet toy_numpy 0" by simp
qed

end
